theory Spec2Isabelle
  imports Complex_Main "HOL-Library.Log_Nat"
begin

section \<open>Values read from session messages\<close>

text \<open>
  The hook \<open>useContextWindowUsage\<close> casts every message to \<open>any\<close> and probes it with
  property reads, truthiness tests and \<open>typeof\<close>. The values it can meet are the ones a
  deserialised event carries. Numbers in messages are token counts and window sizes:
  they are modelled as integers (binary64 holds every integer below \<open>2 ^ 53\<close> exactly;
  \<open>NaN\<close> and the infinities do not occur in deserialised events).
\<close>

datatype jsval =
    JUndefined
  | JNull
  | JBool bool
  | JNum int
  | JStr string
  | JArr "jsval list"
  | JObj "(string \<times> jsval) list"

text \<open>The truthiness test of \<open>a && b\<close>, \<open>a || b\<close> and \<open>!a\<close>.\<close>

fun truthy :: "jsval \<Rightarrow> bool" where
  "truthy JUndefined = False"
| "truthy JNull = False"
| "truthy (JBool b) = b"
| "truthy (JNum n) = (n \<noteq> 0)"
| "truthy (JStr s) = (s \<noteq> [])"
| "truthy (JArr xs) = True"
| "truthy (JObj kvs) = True"

text \<open>The \<open>typeof\<close> operator; \<open>typeof null\<close> is \<open>object\<close>, and so is an array.\<close>

fun typeof :: "jsval \<Rightarrow> string" where
  "typeof JUndefined = ''undefined''"
| "typeof JNull = ''object''"
| "typeof (JBool b) = ''boolean''"
| "typeof (JNum n) = ''number''"
| "typeof (JStr s) = ''string''"
| "typeof (JArr xs) = ''object''"
| "typeof (JObj kvs) = ''object''"

text \<open>
  The optional property read \<open>v?.k\<close>: \<open>undefined\<close> on \<open>null\<close> and \<open>undefined\<close>, the
  property's value on an object that has it, \<open>undefined\<close> on everything else (the
  properties read here are \<open>usage\<close>, \<open>codexItemType\<close> and \<open>modelContextWindow\<close>, which
  no primitive and no array has). Every property read of the hook below the message
  itself is either written with \<open>?.\<close> or guarded by a truthiness test of the same path.
\<close>

fun getProp :: "jsval \<Rightarrow> string \<Rightarrow> jsval" where
  "getProp (JObj kvs) k = (case map_of kvs k of None \<Rightarrow> JUndefined | Some v \<Rightarrow> v)"
| "getProp v k = JUndefined"

text \<open>The number a value of type \<open>number\<close> holds; it is read after a \<open>typeof\<close> test only.\<close>

fun numberValue :: "jsval \<Rightarrow> int" where
  "numberValue (JNum n) = n"
| "numberValue v = 0"

text \<open>
  An element of \<open>ClaudeStreamMessage[]\<close> is an object; the hook reads three of its
  properties, each of which may hold any value.
\<close>

record ClaudeStreamMessage =
  usage :: jsval
  message :: jsval
  codexMetadata :: jsval

section \<open>Usage normalisation\<close>

text \<open>
  Modelled from the spec: the type \<open>StandardizedTokenUsage\<close> returned by
  \<open>normalizeRawUsage\<close> (file \<open>tokenExtractor.ts\<close>) is not among the sources. The spec
  gives the normalised usage four fields, each a non-negative integer.
\<close>

record StandardizedTokenUsage =
  std_input_tokens :: nat
  std_output_tokens :: nat
  std_cache_creation_tokens :: nat
  std_cache_read_tokens :: nat

text \<open>The interface \<open>UsageData\<close> of \<open>lib/utils\<close>.\<close>

record UsageData =
  input_tokens :: nat
  output_tokens :: nat
  cache_creation_tokens :: nat
  cache_read_tokens :: nat
  cache_creation_input_tokens :: nat
  cache_read_input_tokens :: nat

text \<open>
  \<open>normalizeUsageData\<close> delegates to \<open>normalizeRawUsage\<close>, which is taken as the
  parameter \<open>nrm\<close> wherever the code calls it.
\<close>

definition normalizeUsageData :: "(jsval \<Rightarrow> StandardizedTokenUsage) \<Rightarrow> jsval \<Rightarrow> UsageData" where
  "normalizeUsageData nrm u =
     (let standardized = nrm u in
      \<lparr> input_tokens = std_input_tokens standardized,
        output_tokens = std_output_tokens standardized,
        cache_creation_tokens = std_cache_creation_tokens standardized,
        cache_read_tokens = std_cache_read_tokens standardized,
        cache_creation_input_tokens = std_cache_creation_tokens standardized,
        cache_read_input_tokens = std_cache_read_tokens standardized \<rparr>)"

text \<open>The four-field record the indicator works on.\<close>

record NormalizedUsage =
  inputTokens :: nat
  outputTokens :: nat
  cacheCreationTokens :: nat
  cacheReadTokens :: nat

text \<open>\<open>x || 0\<close> on a number: \<open>0\<close> when \<open>x\<close> is falsy, \<open>x\<close> otherwise.\<close>

definition or0 :: "nat \<Rightarrow> nat" where
  "or0 x = (if x \<noteq> 0 then x else 0)"

definition normalizeUsageForIndicator ::
  "(jsval \<Rightarrow> StandardizedTokenUsage) \<Rightarrow> jsval \<Rightarrow> NormalizedUsage" where
  "normalizeUsageForIndicator nrm rawUsage =
     (let normalized = normalizeUsageData nrm rawUsage in
      \<lparr> inputTokens = or0 (input_tokens normalized),
        outputTokens = or0 (output_tokens normalized),
        cacheCreationTokens = or0 (cache_creation_tokens normalized),
        cacheReadTokens = or0 (cache_read_tokens normalized) \<rparr>)"

section \<open>Usage extraction\<close>

text \<open>
  \<open>getUsageCandidate\<close>: the direct \<open>usage\<close> when truthy, else \<open>message?.usage\<close>; the
  value is returned when it is a truthy object. For the codex engine the metadata's
  \<open>usage\<close> is a fallback. \<open>None\<close> is the source's \<open>null\<close>.
\<close>

definition getUsageCandidate :: "ClaudeStreamMessage \<Rightarrow> string option \<Rightarrow> jsval option" where
  "getUsageCandidate m engine =
     (let u = (if truthy (usage m) then usage m else getProp (message m) ''usage'') in
      if truthy u \<and> typeof u = ''object'' then Some u
      else if engine = Some ''codex'' \<and> truthy (getProp (codexMetadata m) ''usage'')
              \<and> typeof (getProp (codexMetadata m) ''usage'') = ''object''
           then Some (getProp (codexMetadata m) ''usage'')
      else None)"

text \<open>
  The loop \<open>for (let i = messages.length - 1; i >= 0; i--)\<close> of \<open>extractCurrentUsage\<close>;
  the argument \<open>Suc i\<close> stands for the loop variable being \<open>i\<close>, and \<open>0\<close> for the exit.
\<close>

fun extractCurrentUsage_loop ::
  "(jsval \<Rightarrow> StandardizedTokenUsage) \<Rightarrow> ClaudeStreamMessage list \<Rightarrow> string option \<Rightarrow> nat
     \<Rightarrow> NormalizedUsage option" where
  "extractCurrentUsage_loop nrm messages engine 0 = None"
| "extractCurrentUsage_loop nrm messages engine (Suc i) =
     (case getUsageCandidate (messages ! i) engine of
        None \<Rightarrow> extractCurrentUsage_loop nrm messages engine i
      | Some u \<Rightarrow>
          (let normalized = normalizeUsageForIndicator nrm u in
           if inputTokens normalized > 0 \<or> outputTokens normalized > 0
              \<or> cacheCreationTokens normalized > 0 \<or> cacheReadTokens normalized > 0
           then Some normalized
           else extractCurrentUsage_loop nrm messages engine i))"

definition extractCurrentUsage ::
  "(jsval \<Rightarrow> StandardizedTokenUsage) \<Rightarrow> ClaudeStreamMessage list \<Rightarrow> string option
     \<Rightarrow> NormalizedUsage option" where
  "extractCurrentUsage nrm messages engine =
     extractCurrentUsage_loop nrm messages engine (length messages)"

text \<open>
  \<open>extractCodexCumulativeUsage\<close>, first pass: backward, the most recent message whose
  \<open>codexMetadata?.usage\<close> is a truthy object that normalises to a positive field.
\<close>

fun codexSnapshot_loop ::
  "(jsval \<Rightarrow> StandardizedTokenUsage) \<Rightarrow> ClaudeStreamMessage list \<Rightarrow> nat
     \<Rightarrow> NormalizedUsage option" where
  "codexSnapshot_loop nrm messages 0 = None"
| "codexSnapshot_loop nrm messages (Suc i) =
     (let cumulativeUsage = getProp (codexMetadata (messages ! i)) ''usage'' in
      if truthy cumulativeUsage \<and> typeof cumulativeUsage = ''object'' then
        (let normalized = normalizeUsageForIndicator nrm cumulativeUsage in
         if inputTokens normalized > 0 \<or> outputTokens normalized > 0
            \<or> cacheCreationTokens normalized > 0 \<or> cacheReadTokens normalized > 0
         then Some normalized
         else codexSnapshot_loop nrm messages i)
      else codexSnapshot_loop nrm messages i)"

text \<open>
  Second pass: forward over the messages, with the five local variables of the source
  as the loop state.
\<close>

record SumState =
  s_inputTokens :: nat
  s_outputTokens :: nat
  s_cacheCreationTokens :: nat
  s_cacheReadTokens :: nat
  s_foundAny :: bool

fun codexSum_loop ::
  "(jsval \<Rightarrow> StandardizedTokenUsage) \<Rightarrow> ClaudeStreamMessage list \<Rightarrow> SumState \<Rightarrow> SumState" where
  "codexSum_loop nrm [] st = st"
| "codexSum_loop nrm (msg # rest) st =
     (if getProp (codexMetadata msg) ''codexItemType'' = JStr ''thread_token_usage_updated''
      then codexSum_loop nrm rest st
      else
        (let rawUsage = usage msg in
         if truthy rawUsage \<and> typeof rawUsage = ''object'' then
           (let normalized = normalizeUsageForIndicator nrm rawUsage in
            if inputTokens normalized > 0 \<or> outputTokens normalized > 0
               \<or> cacheCreationTokens normalized > 0 \<or> cacheReadTokens normalized > 0
            then codexSum_loop nrm rest
                   \<lparr> s_inputTokens = s_inputTokens st + inputTokens normalized,
                     s_outputTokens = s_outputTokens st + outputTokens normalized,
                     s_cacheCreationTokens = s_cacheCreationTokens st + cacheCreationTokens normalized,
                     s_cacheReadTokens = s_cacheReadTokens st + cacheReadTokens normalized,
                     s_foundAny = True \<rparr>
            else codexSum_loop nrm rest st)
         else codexSum_loop nrm rest st))"

definition extractCodexCumulativeUsage ::
  "(jsval \<Rightarrow> StandardizedTokenUsage) \<Rightarrow> ClaudeStreamMessage list \<Rightarrow> NormalizedUsage option" where
  "extractCodexCumulativeUsage nrm messages =
     (case codexSnapshot_loop nrm messages (length messages) of
        Some normalized \<Rightarrow> Some normalized
      | None \<Rightarrow>
          (let st = codexSum_loop nrm messages
                      \<lparr> s_inputTokens = 0, s_outputTokens = 0, s_cacheCreationTokens = 0,
                        s_cacheReadTokens = 0, s_foundAny = False \<rparr> in
           if s_foundAny st
           then Some \<lparr> inputTokens = s_inputTokens st, outputTokens = s_outputTokens st,
                       cacheCreationTokens = s_cacheCreationTokens st,
                       cacheReadTokens = s_cacheReadTokens st \<rparr>
           else None))"

section \<open>Numbers\<close>

text \<open>
  Token counts and window sizes are integers; they are taken to lie below \<open>2 ^ 53\<close>,
  where every integer is a number and sums are exact. The quotient and the product of
  the percentage and of \<open>formatK\<close> are binary64 operations: the exact result rounded to
  the nearest number with a 53-bit significand, ties to the even significand. Exponent
  overflow and subnormal numbers are left out: they lie far outside what such counts
  produce. Numbers are represented by their exact rational value.
\<close>

text \<open>The exponent \<open>e\<close> with \<open>2 ^ e \<le> x < 2 ^ (e + 1)\<close>, for positive \<open>x\<close>.\<close>

definition ilog2 :: "rat \<Rightarrow> int" where
  "ilog2 x =
     (let (p, q) = quotient_of x; k = bitlen p - bitlen q
      in if 2 powi k \<le> x then k else k - 1)"

text \<open>Rounding to the nearest integer, a tie going to the even one.\<close>

definition round_even :: "rat \<Rightarrow> int" where
  "round_even x =
     (let f = \<lfloor>x\<rfloor>; d = x - of_int f
      in if d < 1 / 2 then f
         else if 1 / 2 < d then f + 1
         else if even f then f else f + 1)"

definition fl :: "rat \<Rightarrow> rat" where
  "fl x =
     (if x = 0 then 0
      else (let u = 2 powi (ilog2 \<bar>x\<bar> - 52)
            in sgn x * of_int (round_even (\<bar>x\<bar> / u)) * u))"

definition js_div :: "rat \<Rightarrow> rat \<Rightarrow> rat" where
  "js_div a b = fl (a / b)"

definition js_mul :: "rat \<Rightarrow> rat \<Rightarrow> rat" where
  "js_mul a b = fl (a * b)"

subsection \<open>Number to string\<close>

definition digit_char :: "nat \<Rightarrow> char" where
  "digit_char d = char_of (48 + d)"

text \<open>The decimal digits of a natural number, most significant first; \<open>0\<close> is \<open>''0''\<close>.\<close>

function dec_digits :: "nat \<Rightarrow> string" where
  "dec_digits n =
     (if n < 10 then [digit_char n] else dec_digits (n div 10) @ [digit_char (n mod 10)])"
  by pat_completeness auto
termination
  by (relation "measure id") auto

declare dec_digits.simps [simp del]

text \<open>\<open>Number.prototype.toString\<close> on an integer below \<open>10 ^ 21\<close> in magnitude.\<close>

definition toString :: "int \<Rightarrow> string" where
  "toString n = (if n < 0 then ''-'' @ dec_digits (nat (- n)) else dec_digits (nat n))"

text \<open>
  A number is a rational that the rounding leaves unchanged. Every integer of
  magnitude up to \<open>2 ^ 53\<close> is one; above that, only some integers are.
\<close>

definition isNumber :: "rat \<Rightarrow> bool" where
  "isNumber x \<longleftrightarrow> fl x = x"

text \<open>
  \<open>Number::toString\<close> (radix 10) on a number \<open>x \<ge> 10 ^ 21\<close>. ECMA-262 takes integers
  \<open>n\<close>, \<open>k\<close> and \<open>s\<close> with \<open>k \<ge> 1\<close>, \<open>10 ^ (k - 1) \<le> s < 10 ^ k\<close>, the number for
  \<open>s * 10 ^ (n - k)\<close> being \<open>x\<close>, and \<open>k\<close> as small as possible; among several \<open>s\<close> it takes
  the one for which \<open>s * 10 ^ (n - k)\<close> is closest to \<open>x\<close>. As \<open>n > 21\<close> here, the result is
  in exponent notation: the first digit of \<open>s\<close>, a point and the other digits when
  there are any, \<open>e+\<close> and \<open>n - 1\<close>.

  For a given \<open>k\<close> and \<open>n\<close>, the values \<open>s\<close> whose number is \<open>x\<close> are consecutive integers
  around \<open>x / 10 ^ (n - k)\<close>, so the closest of them is its floor or the next integer;
  \<open>n\<close> is the number of digits of \<open>x\<close>, or one more when \<open>x\<close> is the number for a power
  of ten just above it.
\<close>

definition shortestCandidates :: "rat \<Rightarrow> nat \<Rightarrow> nat \<Rightarrow> (nat \<times> int) list" where
  "shortestCandidates x k n =
     (let p = 10 ^ (n - k); f = \<lfloor>x / of_int p\<rfloor>
      in map (\<lambda>s. (n, s))
           (filter (\<lambda>s. 10 ^ (k - 1) \<le> s \<and> s < 10 ^ k \<and> fl (of_int s * of_int p) = x)
              [f, f + 1]))"

definition candidateDistance :: "rat \<Rightarrow> nat \<Rightarrow> nat \<times> int \<Rightarrow> rat" where
  "candidateDistance x k c = \<bar>of_int (snd c) * 10 ^ (fst c - k) - x\<bar>"

fun pickClosest :: "rat \<Rightarrow> nat \<Rightarrow> (nat \<times> int) list \<Rightarrow> (nat \<times> int) option" where
  "pickClosest x k [] = None"
| "pickClosest x k (c # cs) =
     (case pickClosest x k cs of
        None \<Rightarrow> Some c
      | Some c' \<Rightarrow>
          if candidateDistance x k c < candidateDistance x k c'
             \<or> (candidateDistance x k c = candidateDistance x k c' \<and> even (snd c))
          then Some c else Some c')"

text \<open>
  The search for the smallest \<open>k\<close>, from \<open>k\<close> upward; \<open>dx\<close> is the number of digits of
  \<open>x\<close>, and with \<open>dx\<close> digits the integer \<open>x\<close> itself is found. The result is \<open>(k, n, s)\<close>.
\<close>

function shortestDigits :: "rat \<Rightarrow> nat \<Rightarrow> nat \<Rightarrow> nat \<times> nat \<times> int" where
  "shortestDigits x dx k =
     (if dx \<le> k then (dx, dx, \<lfloor>x\<rfloor>)
      else (case pickClosest x k (shortestCandidates x k dx @ shortestCandidates x k (dx + 1)) of
              Some (n, s) \<Rightarrow> (k, n, s)
            | None \<Rightarrow> shortestDigits x dx (k + 1)))"
  by pat_completeness auto
termination
  by (relation "measure (\<lambda>(x, dx, k). dx - k)") auto

declare shortestDigits.simps [simp del]

definition toStringLarge :: "rat \<Rightarrow> string" where
  "toStringLarge x =
     (case shortestDigits x (length (dec_digits (nat \<lfloor>x\<rfloor>))) 1 of
        (k, n, s) \<Rightarrow>
          if k = 1 then dec_digits (nat s) @ ''e+'' @ dec_digits (n - 1)
          else take 1 (dec_digits (nat s)) @ ''.'' @ drop 1 (dec_digits (nat s))
                 @ ''e+'' @ dec_digits (n - 1))"

text \<open>
  \<open>Number.prototype.toFixed(1)\<close>, as ECMA-262 defines it: the sign is split off; a
  number from \<open>10 ^ 21\<close> on is printed by \<open>Number::toString\<close>; below that, \<open>n\<close> is the
  integer for which \<open>n / 10 - x\<close> is closest to zero, the larger one if there are two, its
  digits are padded with a leading zero to two characters at least, and the point goes
  before the last one.
\<close>

definition toFixed1 :: "rat \<Rightarrow> string" where
  "toFixed1 x =
     (let s = (if x < 0 then ''-'' else []);
          a = \<bar>x\<bar>
      in if a \<ge> 10 ^ 21 then s @ toStringLarge a
         else
           (let n = nat \<lfloor>a * 10 + 1 / 2\<rfloor>;
                m = dec_digits n;
                m' = (if length m \<le> 1 then ''0'' @ m else m);
                k = length m'
            in s @ take (k - 1) m' @ ''.'' @ drop (k - 1) m'))"

text \<open>
  \<open>formatK\<close>; it is applied to \<open>currentTokens\<close> and to \<open>contextWindowSize\<close>. Its argument
  stands for a number that holds an integer: an integer \<open>n\<close> with \<open>isNumber (of_int n)\<close>.
\<close>

definition formatK :: "int \<Rightarrow> string" where
  "formatK n =
     (if n \<ge> 1000000 then toFixed1 (js_div (of_int n) 1000000) @ ''M''
      else if n \<ge> 1000 then toFixed1 (js_div (of_int n) 1000) @ ''K''
      else toString n)"

section \<open>The aggregator\<close>

datatype ContextUsageLevel = low | medium | high | critical

record ContextWindowUsage =
  currentTokens :: nat
  contextWindowSize :: int
  percentage :: rat
  breakdown :: NormalizedUsage

record UseContextWindowUsageResult = ContextWindowUsage +
  level :: ContextUsageLevel
  hasData :: bool
  formattedPercentage :: string
  formattedTokens :: string

text \<open>
  The codex loop over \<open>codexMetadata?.modelContextWindow\<close>, backward, leaving at the first
  value that is a number above zero; the last argument is \<open>contextWindowSize\<close> before
  the loop.
\<close>

fun contextWindow_loop :: "ClaudeStreamMessage list \<Rightarrow> nat \<Rightarrow> int \<Rightarrow> int" where
  "contextWindow_loop messages 0 windowSize = windowSize"
| "contextWindow_loop messages (Suc i) windowSize =
     (let maybeCtx = getProp (codexMetadata (messages ! i)) ''modelContextWindow'' in
      if typeof maybeCtx = ''number'' \<and> numberValue maybeCtx > 0 then numberValue maybeCtx
      else contextWindow_loop messages i windowSize)"

text \<open>
  \<open>useContextWindowUsage\<close>. The imported \<open>normalizeRawUsage\<close>, \<open>getContextWindowSize\<close>
  and \<open>getUsageLevel\<close> are the parameters \<open>nrm\<close>, \<open>gcws\<close> and \<open>gul\<close>; \<open>useMemo\<close> caches
  the value of a pure computation and is not modelled. The local variables that share
  a name with a field of the result are written \<open>windowSize\<close>, \<open>tokens\<close>, \<open>pct\<close>,
  \<open>lvl\<close>, \<open>fmtPercentage\<close> and \<open>fmtTokens\<close>.
\<close>

definition useContextWindowUsage ::
  "(jsval \<Rightarrow> StandardizedTokenUsage) \<Rightarrow> (string option \<Rightarrow> string option \<Rightarrow> int)
     \<Rightarrow> (rat \<Rightarrow> ContextUsageLevel)
     \<Rightarrow> ClaudeStreamMessage list \<Rightarrow> string option \<Rightarrow> string option
     \<Rightarrow> UseContextWindowUsageResult" where
  "useContextWindowUsage nrm gcws gul messages model engine =
     (let windowSize0 = gcws model engine;
          windowSize =
            (if engine = Some ''codex''
             then contextWindow_loop messages (length messages) windowSize0
             else windowSize0);
          defaultResult =
            \<lparr> currentTokens = 0,
              contextWindowSize = windowSize,
              percentage = 0,
              breakdown = \<lparr> inputTokens = 0, outputTokens = 0,
                            cacheCreationTokens = 0, cacheReadTokens = 0 \<rparr>,
              level = low,
              hasData = False,
              formattedPercentage = ''0%'',
              formattedTokens = ''0 / '' @ formatK windowSize \<rparr>
      in if length messages = 0 then defaultResult
         else
           (case (if engine = Some ''codex''
                  then extractCodexCumulativeUsage nrm messages
                  else extractCurrentUsage nrm messages engine) of
              None \<Rightarrow> defaultResult
            | Some currentUsage \<Rightarrow>
                (let tokens = inputTokens currentUsage
                                + cacheCreationTokens currentUsage
                                + cacheReadTokens currentUsage;
                     pct =
                       (if windowSize > 0
                        then min (js_mul (js_div (of_nat tokens) (of_int windowSize)) 100) 100
                        else 0);
                     lvl = gul pct;
                     fmtPercentage = toFixed1 pct @ ''%'';
                     fmtTokens = formatK (int tokens) @ '' / '' @ formatK windowSize
                 in \<lparr> currentTokens = tokens,
                      contextWindowSize = windowSize,
                      percentage = pct,
                      breakdown = \<lparr> inputTokens = inputTokens currentUsage,
                                    outputTokens = outputTokens currentUsage,
                                    cacheCreationTokens = cacheCreationTokens currentUsage,
                                    cacheReadTokens = cacheReadTokens currentUsage \<rparr>,
                      level = lvl,
                      hasData = True,
                      formattedPercentage = fmtPercentage,
                      formattedTokens = fmtTokens \<rparr>)))"

section \<open>A normaliser to run the hook on\<close>

text \<open>
  Modelled from the spec: \<open>normalizeRawUsage\<close> (file \<open>tokenExtractor.ts\<close>) is not among
  the sources. The spec has it coerce every field to a non-negative integer, a missing,
  non-numeric or negative value counting as zero, and read both the normalised and the
  API key of a cache field without adding the two. Which key wins is not stated: here
  the normalised key is read first, and Codex's \<open>cached_input_tokens\<close> is read last, as
  tokens read from the cache. The theorems below hold for every normaliser; this one
  serves to evaluate the hook on concrete messages.
\<close>

fun tokenField :: "jsval \<Rightarrow> string list \<Rightarrow> nat" where
  "tokenField u [] = 0"
| "tokenField u (k # ks) =
     (case getProp u k of
        JNum n \<Rightarrow> if n > 0 then nat n else tokenField u ks
      | _ \<Rightarrow> tokenField u ks)"

definition normalizeRawUsage :: "jsval \<Rightarrow> StandardizedTokenUsage" where
  "normalizeRawUsage u =
     \<lparr> std_input_tokens = tokenField u [''input_tokens''],
       std_output_tokens = tokenField u [''output_tokens''],
       std_cache_creation_tokens =
         tokenField u [''cache_creation_tokens'', ''cache_creation_input_tokens''],
       std_cache_read_tokens =
         tokenField u [''cache_read_tokens'', ''cache_read_input_tokens'', ''cached_input_tokens''] \<rparr>"

section \<open>Notions used in the statements\<close>

text \<open>A usage record with a field above zero.\<close>

definition hasTokens :: "NormalizedUsage \<Rightarrow> bool" where
  "hasTokens u \<longleftrightarrow>
     inputTokens u > 0 \<or> outputTokens u > 0 \<or> cacheCreationTokens u > 0 \<or> cacheReadTokens u > 0"

definition zeroUsage :: NormalizedUsage where
  "zeroUsage = \<lparr> inputTokens = 0, outputTokens = 0, cacheCreationTokens = 0, cacheReadTokens = 0 \<rparr>"

text \<open>A value that can be a usage payload: a truthy value of type \<open>object\<close>.\<close>

definition isUsageObject :: "jsval \<Rightarrow> bool" where
  "isUsageObject v \<longleftrightarrow> truthy v \<and> typeof v = ''object''"

text \<open>The cumulative snapshot of a message sits in its engine metadata.\<close>

definition snapshotOf :: "ClaudeStreamMessage \<Rightarrow> jsval" where
  "snapshotOf m = getProp (codexMetadata m) ''usage''"

definition carriesSnapshot :: "(jsval \<Rightarrow> StandardizedTokenUsage) \<Rightarrow> ClaudeStreamMessage \<Rightarrow> bool" where
  "carriesSnapshot nrm m \<longleftrightarrow>
     isUsageObject (snapshotOf m) \<and> hasTokens (normalizeUsageForIndicator nrm (snapshotOf m))"

text \<open>A message tagged with the cumulative-update event type.\<close>

definition taggedCumulativeUpdate :: "ClaudeStreamMessage \<Rightarrow> bool" where
  "taggedCumulativeUpdate m \<longleftrightarrow>
     getProp (codexMetadata m) ''codexItemType'' = JStr ''thread_token_usage_updated''"

text \<open>The untagged messages that carry direct usage data: the deltas of the second pass.\<close>

definition isDelta :: "ClaudeStreamMessage \<Rightarrow> bool" where
  "isDelta m \<longleftrightarrow> \<not> taggedCumulativeUpdate m \<and> isUsageObject (usage m)"

definition contributes :: "(jsval \<Rightarrow> StandardizedTokenUsage) \<Rightarrow> ClaudeStreamMessage \<Rightarrow> bool" where
  "contributes nrm m \<longleftrightarrow> isDelta m \<and> hasTokens (normalizeUsageForIndicator nrm (usage m))"

text \<open>The field-wise sum of the normalised direct usage of a list of messages.\<close>

definition sumUsage :: "(jsval \<Rightarrow> StandardizedTokenUsage) \<Rightarrow> ClaudeStreamMessage list \<Rightarrow> NormalizedUsage" where
  "sumUsage nrm ms =
     \<lparr> inputTokens = (\<Sum>m\<leftarrow>ms. inputTokens (normalizeUsageForIndicator nrm (usage m))),
       outputTokens = (\<Sum>m\<leftarrow>ms. outputTokens (normalizeUsageForIndicator nrm (usage m))),
       cacheCreationTokens = (\<Sum>m\<leftarrow>ms. cacheCreationTokens (normalizeUsageForIndicator nrm (usage m))),
       cacheReadTokens = (\<Sum>m\<leftarrow>ms. cacheReadTokens (normalizeUsageForIndicator nrm (usage m))) \<rparr>"

text \<open>
  The usage of a message for the engines other than codex: the direct field when it
  is there (truthy), else the one under the \<open>message\<close> sub-object.
\<close>

definition usageOf :: "ClaudeStreamMessage \<Rightarrow> jsval" where
  "usageOf m = (if truthy (usage m) then usage m else getProp (message m) ''usage'')"

definition carriesUsage :: "(jsval \<Rightarrow> StandardizedTokenUsage) \<Rightarrow> ClaudeStreamMessage \<Rightarrow> bool" where
  "carriesUsage nrm m \<longleftrightarrow>
     isUsageObject (usageOf m) \<and> hasTokens (normalizeUsageForIndicator nrm (usageOf m))"

text \<open>The context window a message reports at run time: a number above zero.\<close>

definition runtimeWindow :: "ClaudeStreamMessage \<Rightarrow> int option" where
  "runtimeWindow m =
     (case getProp (codexMetadata m) ''modelContextWindow'' of
        JNum v \<Rightarrow> if v > 0 then Some v else None
      | _ \<Rightarrow> None)"

text \<open>The windows reported in a list of messages, in the order of the messages.\<close>

definition runtimeWindows :: "ClaudeStreamMessage list \<Rightarrow> int list" where
  "runtimeWindows ms = List.map_filter runtimeWindow ms"

text \<open>
  The window the aggregator resolves: for the codex engine the most recent window
  reported at run time when there is one, the static table's value otherwise.
\<close>

definition resolvedWindow ::
  "(string option \<Rightarrow> string option \<Rightarrow> int) \<Rightarrow> ClaudeStreamMessage list \<Rightarrow> string option
     \<Rightarrow> string option \<Rightarrow> int" where
  "resolvedWindow gcws ms model engine =
     (if engine = Some ''codex'' \<and> runtimeWindows ms \<noteq> [] then last (runtimeWindows ms)
      else gcws model engine)"

text \<open>The extraction the aggregator runs for an engine.\<close>

definition extractUsage ::
  "(jsval \<Rightarrow> StandardizedTokenUsage) \<Rightarrow> ClaudeStreamMessage list \<Rightarrow> string option
     \<Rightarrow> NormalizedUsage option" where
  "extractUsage nrm ms engine =
     (if engine = Some ''codex'' then extractCodexCumulativeUsage nrm ms
      else extractCurrentUsage nrm ms engine)"

text \<open>The most recent element of a list that satisfies a predicate.\<close>

definition mostRecent :: "('a \<Rightarrow> bool) \<Rightarrow> 'a list \<Rightarrow> 'a option" where
  "mostRecent P xs = (if filter P xs = [] then None else Some (last (filter P xs)))"

text \<open>
  Modelled from the spec: \<open>getContextWindowSize\<close> (\<open>lib/tokenCounter\<close>) and
  \<open>getUsageLevel\<close> (\<open>types/contextWindow\<close>) are not among the sources. The spec
  describes them as a pure function from model and engine to an integer, with the table
  left open, and as a monotonic step function of the percentage, with the thresholds
  left open. The hook takes both as parameters; the table and the thresholds below
  serve to evaluate it.
\<close>

definition exampleWindowSize :: "string option \<Rightarrow> string option \<Rightarrow> int" where
  "exampleWindowSize model engine = (if engine = Some ''codex'' then 128000 else 200000)"

definition exampleUsageLevel :: "rat \<Rightarrow> ContextUsageLevel" where
  "exampleUsageLevel p =
     (if p < 50 then low else if p < 75 then medium else if p < 90 then high else critical)"

text \<open>Messages to evaluate the hook on.\<close>

definition plainMsg :: ClaudeStreamMessage where
  "plainMsg = \<lparr> usage = JUndefined, message = JUndefined, codexMetadata = JUndefined \<rparr>"

definition usageMsg :: "jsval \<Rightarrow> ClaudeStreamMessage" where
  "usageMsg u = \<lparr> usage = u, message = JUndefined, codexMetadata = JUndefined \<rparr>"

definition nestedMsg :: "jsval \<Rightarrow> ClaudeStreamMessage" where
  "nestedMsg u = \<lparr> usage = JUndefined, message = JObj [(''usage'', u)], codexMetadata = JUndefined \<rparr>"

definition metaMsg :: "jsval \<Rightarrow> jsval \<Rightarrow> ClaudeStreamMessage" where
  "metaMsg u md = \<lparr> usage = u, message = JUndefined, codexMetadata = md \<rparr>"

definition inputOnly :: "int \<Rightarrow> jsval" where
  "inputOnly n = JObj [(''input_tokens'', JNum n)]"

text \<open>A window table that gives every model and engine the same size.\<close>

definition constWindow :: "int \<Rightarrow> string option \<Rightarrow> string option \<Rightarrow> int" where
  "constWindow w model engine = w"

section \<open>The backward scans find the most recent message\<close>

lemma mostRecent_Nil: "mostRecent P [] = None"
  by (simp add: mostRecent_def)

lemma mostRecent_snoc:
  "mostRecent P (xs @ [x]) = (if P x then Some x else mostRecent P xs)"
  by (simp add: mostRecent_def)

lemma mostRecent_None_iff: "mostRecent P xs = None \<longleftrightarrow> (\<forall>x\<in>set xs. \<not> P x)"
  by (simp add: mostRecent_def filter_empty_conv)

lemma mostRecent_Some_iff:
  "mostRecent P xs = Some m \<longleftrightarrow>
     (\<exists>pre post. xs = pre @ m # post \<and> P m \<and> (\<forall>x\<in>set post. \<not> P x))"
proof (induction xs rule: rev_induct)
  case Nil
  then show ?case by (simp add: mostRecent_Nil)
next
  case (snoc x xs)
  show ?case
  proof (cases "P x")
    case True
    have "(\<exists>pre post. xs @ [x] = pre @ m # post \<and> P m \<and> (\<forall>y\<in>set post. \<not> P y)) \<longleftrightarrow> x = m"
    proof
      assume "\<exists>pre post. xs @ [x] = pre @ m # post \<and> P m \<and> (\<forall>y\<in>set post. \<not> P y)"
      then obtain pre post where e: "xs @ [x] = pre @ m # post" and n: "\<forall>y\<in>set post. \<not> P y"
        by blast
      show "x = m"
      proof (cases post rule: rev_cases)
        case Nil
        with e show ?thesis by simp
      next
        case (snoc post' y)
        with e have "x = y" by simp
        with n snoc True show ?thesis by simp
      qed
    next
      assume "x = m"
      with True have "xs @ [x] = xs @ m # [] \<and> P m \<and> (\<forall>y\<in>set []. \<not> P y)" by simp
      then show "\<exists>pre post. xs @ [x] = pre @ m # post \<and> P m \<and> (\<forall>y\<in>set post. \<not> P y)"
        by blast
    qed
    with True show ?thesis by (auto simp: mostRecent_snoc)
  next
    case False
    have "(\<exists>pre post. xs @ [x] = pre @ m # post \<and> P m \<and> (\<forall>y\<in>set post. \<not> P y)) \<longleftrightarrow>
          (\<exists>pre post. xs = pre @ m # post \<and> P m \<and> (\<forall>y\<in>set post. \<not> P y))"
    proof
      assume "\<exists>pre post. xs @ [x] = pre @ m # post \<and> P m \<and> (\<forall>y\<in>set post. \<not> P y)"
      then obtain pre post where e: "xs @ [x] = pre @ m # post" and pm: "P m"
        and n: "\<forall>y\<in>set post. \<not> P y"
        by blast
      show "\<exists>pre post. xs = pre @ m # post \<and> P m \<and> (\<forall>y\<in>set post. \<not> P y)"
      proof (cases post rule: rev_cases)
        case Nil
        with e pm False show ?thesis by simp
      next
        case (snoc post' y)
        with e have "xs = pre @ m # post'" by simp
        moreover from n snoc have "\<forall>y\<in>set post'. \<not> P y" by simp
        ultimately show ?thesis using pm by blast
      qed
    next
      assume "\<exists>pre post. xs = pre @ m # post \<and> P m \<and> (\<forall>y\<in>set post. \<not> P y)"
      then obtain pre post where e: "xs = pre @ m # post" and pm: "P m"
        and n: "\<forall>y\<in>set post. \<not> P y"
        by blast
      from e have "xs @ [x] = pre @ m # (post @ [x])" by simp
      moreover from n False have "\<forall>y\<in>set (post @ [x]). \<not> P y" by simp
      ultimately show "\<exists>pre post. xs @ [x] = pre @ m # post \<and> P m \<and> (\<forall>y\<in>set post. \<not> P y)"
        using pm by blast
    qed
    with False snoc.IH show ?thesis by (simp add: mostRecent_snoc)
  qed
qed

lemma codexSnapshot_loop_take:
  "n \<le> length ms \<Longrightarrow>
   codexSnapshot_loop nrm ms n =
     map_option (\<lambda>m. normalizeUsageForIndicator nrm (snapshotOf m))
       (mostRecent (carriesSnapshot nrm) (take n ms))"
proof (induction n)
  case 0
  then show ?case by (simp add: mostRecent_Nil)
next
  case (Suc n)
  then have t: "take (Suc n) ms = take n ms @ [ms ! n]"
    by (simp add: take_Suc_conv_app_nth)
  from Suc show ?case
    by (simp add: t mostRecent_snoc carriesSnapshot_def isUsageObject_def snapshotOf_def
        hasTokens_def Let_def)
qed

lemma extractCurrentUsage_loop_take:
  "n \<le> length ms \<Longrightarrow> engine \<noteq> Some ''codex'' \<Longrightarrow>
   extractCurrentUsage_loop nrm ms engine n =
     map_option (\<lambda>m. normalizeUsageForIndicator nrm (usageOf m))
       (mostRecent (carriesUsage nrm) (take n ms))"
proof (induction n)
  case 0
  then show ?case by (simp add: mostRecent_Nil)
next
  case (Suc n)
  then have t: "take (Suc n) ms = take n ms @ [ms ! n]"
    by (simp add: take_Suc_conv_app_nth)
  from Suc show ?case
    by (simp add: t mostRecent_snoc carriesUsage_def isUsageObject_def usageOf_def
        getUsageCandidate_def hasTokens_def Let_def)
qed

lemma contextWindow_loop_take:
  "n \<le> length ms \<Longrightarrow>
   contextWindow_loop ms n w =
     (if runtimeWindows (take n ms) = [] then w else last (runtimeWindows (take n ms)))"
proof (induction n)
  case 0
  then show ?case by (simp add: runtimeWindows_def List.map_filter_def)
next
  case (Suc n)
  then have t: "take (Suc n) ms = take n ms @ [ms ! n]"
    by (simp add: take_Suc_conv_app_nth)
  from Suc show ?case
    by (cases "getProp (codexMetadata (ms ! n)) ''modelContextWindow''")
       (simp_all add: t runtimeWindows_def List.map_filter_def runtimeWindow_def Let_def)
qed

section \<open>The forward sum of the codex fallback\<close>

lemma codexSum_loop_found:
  "s_foundAny (codexSum_loop nrm ms st) \<longleftrightarrow> s_foundAny st \<or> (\<exists>m\<in>set ms. contributes nrm m)"
  by (induction ms arbitrary: st)
     (auto simp: contributes_def isDelta_def taggedCumulativeUpdate_def isUsageObject_def
        hasTokens_def Let_def)

lemma sum_filter_contributes:
  assumes "\<And>m. isDelta m \<Longrightarrow> \<not> contributes nrm m \<Longrightarrow> f m = (0::nat)"
  shows "(\<Sum>m\<leftarrow>filter (contributes nrm) ms. f m) = (\<Sum>m\<leftarrow>filter isDelta ms. f m)"
  using assms by (induction ms) (auto simp: contributes_def)

lemma codexSum_loop_input:
  "s_inputTokens (codexSum_loop nrm ms st) =
     s_inputTokens st + (\<Sum>m\<leftarrow>filter (contributes nrm) ms. inputTokens (normalizeUsageForIndicator nrm (usage m)))"
  by (induction ms arbitrary: st)
     (simp_all add: contributes_def isDelta_def taggedCumulativeUpdate_def isUsageObject_def
        hasTokens_def Let_def)

lemma codexSum_loop_output:
  "s_outputTokens (codexSum_loop nrm ms st) =
     s_outputTokens st + (\<Sum>m\<leftarrow>filter (contributes nrm) ms. outputTokens (normalizeUsageForIndicator nrm (usage m)))"
  by (induction ms arbitrary: st)
     (simp_all add: contributes_def isDelta_def taggedCumulativeUpdate_def isUsageObject_def
        hasTokens_def Let_def)

lemma codexSum_loop_cacheCreation:
  "s_cacheCreationTokens (codexSum_loop nrm ms st) =
     s_cacheCreationTokens st + (\<Sum>m\<leftarrow>filter (contributes nrm) ms. cacheCreationTokens (normalizeUsageForIndicator nrm (usage m)))"
  by (induction ms arbitrary: st)
     (simp_all add: contributes_def isDelta_def taggedCumulativeUpdate_def isUsageObject_def
        hasTokens_def Let_def)

lemma codexSum_loop_cacheRead:
  "s_cacheReadTokens (codexSum_loop nrm ms st) =
     s_cacheReadTokens st + (\<Sum>m\<leftarrow>filter (contributes nrm) ms. cacheReadTokens (normalizeUsageForIndicator nrm (usage m)))"
  by (induction ms arbitrary: st)
     (simp_all add: contributes_def isDelta_def taggedCumulativeUpdate_def isUsageObject_def
        hasTokens_def Let_def)

lemma sumUsage_contributes: "sumUsage nrm (filter (contributes nrm) ms) = sumUsage nrm (filter isDelta ms)"
proof -
  have "(\<Sum>m\<leftarrow>filter (contributes nrm) ms. inputTokens (normalizeUsageForIndicator nrm (usage m)))
        = (\<Sum>m\<leftarrow>filter isDelta ms. inputTokens (normalizeUsageForIndicator nrm (usage m)))"
    by (rule sum_filter_contributes) (simp add: contributes_def hasTokens_def)
  moreover
  have "(\<Sum>m\<leftarrow>filter (contributes nrm) ms. outputTokens (normalizeUsageForIndicator nrm (usage m)))
        = (\<Sum>m\<leftarrow>filter isDelta ms. outputTokens (normalizeUsageForIndicator nrm (usage m)))"
    by (rule sum_filter_contributes) (simp add: contributes_def hasTokens_def)
  moreover
  have "(\<Sum>m\<leftarrow>filter (contributes nrm) ms. cacheCreationTokens (normalizeUsageForIndicator nrm (usage m)))
        = (\<Sum>m\<leftarrow>filter isDelta ms. cacheCreationTokens (normalizeUsageForIndicator nrm (usage m)))"
    by (rule sum_filter_contributes) (simp add: contributes_def hasTokens_def)
  moreover
  have "(\<Sum>m\<leftarrow>filter (contributes nrm) ms. cacheReadTokens (normalizeUsageForIndicator nrm (usage m)))
        = (\<Sum>m\<leftarrow>filter isDelta ms. cacheReadTokens (normalizeUsageForIndicator nrm (usage m)))"
    by (rule sum_filter_contributes) (simp add: contributes_def hasTokens_def)
  ultimately show ?thesis
    by (simp add: sumUsage_def)
qed

lemma codexSum_loop_sum:
  "codexSum_loop nrm ms \<lparr> s_inputTokens = 0, s_outputTokens = 0, s_cacheCreationTokens = 0,
                        s_cacheReadTokens = 0, s_foundAny = False \<rparr> = st \<Longrightarrow>
   \<lparr> inputTokens = s_inputTokens st, outputTokens = s_outputTokens st,
     cacheCreationTokens = s_cacheCreationTokens st,
     cacheReadTokens = s_cacheReadTokens st \<rparr> = sumUsage nrm (filter isDelta ms)
   \<and> (s_foundAny st \<longleftrightarrow> (\<exists>m\<in>set ms. contributes nrm m))"
  unfolding sumUsage_contributes [symmetric]
  by (auto simp: sumUsage_def codexSum_loop_input codexSum_loop_output codexSum_loop_cacheCreation
      codexSum_loop_cacheRead codexSum_loop_found)

lemma codexSnapshot_loop_all:
  "codexSnapshot_loop nrm ms (length ms) =
     map_option (\<lambda>m. normalizeUsageForIndicator nrm (snapshotOf m)) (mostRecent (carriesSnapshot nrm) ms)"
  by (simp add: codexSnapshot_loop_take)

lemma extractCodexCumulativeUsage_snapshot:
  "mostRecent (carriesSnapshot nrm) ms = Some m \<Longrightarrow>
   extractCodexCumulativeUsage nrm ms = Some (normalizeUsageForIndicator nrm (snapshotOf m))"
  by (simp add: extractCodexCumulativeUsage_def codexSnapshot_loop_all)

lemma extractCodexCumulativeUsage_sum:
  "mostRecent (carriesSnapshot nrm) ms = None \<Longrightarrow>
   extractCodexCumulativeUsage nrm ms =
     (if \<exists>m\<in>set ms. contributes nrm m then Some (sumUsage nrm (filter isDelta ms)) else None)"
  using codexSum_loop_sum [OF refl, of nrm ms]
  by (simp add: extractCodexCumulativeUsage_def codexSnapshot_loop_all Let_def)

lemma extractCurrentUsage_all:
  "engine \<noteq> Some ''codex'' \<Longrightarrow>
   extractCurrentUsage nrm ms engine =
     map_option (\<lambda>m. normalizeUsageForIndicator nrm (usageOf m)) (mostRecent (carriesUsage nrm) ms)"
  by (simp add: extractCurrentUsage_def extractCurrentUsage_loop_take)

section \<open>Rounding to binary64\<close>

lemma round_even_error: "\<bar>of_int (round_even x) - x\<bar> \<le> 1 / 2"
proof -
  have lo: "of_int \<lfloor>x\<rfloor> \<le> x" and hi: "x < of_int \<lfloor>x\<rfloor> + 1" by linarith+
  consider (below) "x - of_int \<lfloor>x\<rfloor> < 1 / 2" | (above) "1 / 2 < x - of_int \<lfloor>x\<rfloor>"
    | (tie) "x - of_int \<lfloor>x\<rfloor> = 1 / 2"
    by linarith
  then show ?thesis
  proof cases
    case below
    then have "round_even x = \<lfloor>x\<rfloor>" by (simp add: round_even_def)
    with lo below show ?thesis by simp
  next
    case above
    then have "round_even x = \<lfloor>x\<rfloor> + 1" by (simp add: round_even_def)
    with hi above show ?thesis by simp
  next
    case tie
    then have "round_even x = \<lfloor>x\<rfloor> \<or> round_even x = \<lfloor>x\<rfloor> + 1" by (simp add: round_even_def Let_def)
    with tie show ?thesis by auto
  qed
qed

lemma round_even_nonneg: "0 \<le> x \<Longrightarrow> 0 \<le> round_even x"
  by (auto simp: round_even_def Let_def)

lemma ilog2_le:
  assumes "0 < x"
  shows "2 powi (ilog2 x) \<le> x"
proof -
  obtain p q where pq: "quotient_of x = (p, q)" by (cases "quotient_of x")
  then have q: "0 < q" and x: "x = of_int p / of_int q"
    by (simp_all add: quotient_of_denom_pos quotient_of_div)
  with assms have p: "0 < p"
    by (simp add: zero_less_divide_iff)
  define k where "k = bitlen p - bitlen q"
  show ?thesis
  proof (cases "(2::rat) powi k \<le> x")
    case True
    then show ?thesis by (simp add: ilog2_def pq k_def)
  next
    case False
    have bp: "2 ^ nat (bitlen p - 1) \<le> p" and bq: "q < 2 ^ nat (bitlen q)"
      using bitlen_bounds [OF p] bitlen_bounds [OF q] by simp_all
    have bp1: "1 \<le> bitlen p" using p bitlen_eq_zero_iff [of p] bitlen_nonneg [of p] by linarith
    have bq0: "0 \<le> bitlen q" by (rule bitlen_nonneg)
    have e: "k - 1 = (bitlen p - 1) - bitlen q" by (simp add: k_def)
    have "(2::rat) powi (k - 1) = 2 powi ((bitlen p - 1) - bitlen q)" by (simp only: e)
    moreover have "(2::rat) powi ((bitlen p - 1) - bitlen q) = 2 powi (bitlen p - 1) / 2 powi (bitlen q)"
      by (rule power_int_diff) simp
    ultimately have "(2::rat) powi (k - 1) = 2 powi (bitlen p - 1) / 2 powi (bitlen q)"
      by simp
    also have "\<dots> = 2 ^ nat (bitlen p - 1) / 2 ^ nat (bitlen q)"
      using bp1 bq0 by (simp add: power_int_def)
    also have "\<dots> \<le> of_int p / of_int q"
    proof (rule frac_le)
      show "(0::rat) \<le> of_int p" using p by simp
      have "(of_int (2 ^ nat (bitlen p - 1)) :: rat) \<le> of_int p" using bp by (simp only: of_int_le_iff)
      then show "(2::rat) ^ nat (bitlen p - 1) \<le> of_int p" by simp
      show "(0::rat) < of_int q" using q by simp
      have "(of_int q :: rat) \<le> of_int (2 ^ nat (bitlen q))" using bq by (simp only: of_int_le_iff)
      then show "(of_int q :: rat) \<le> 2 ^ nat (bitlen q)" by simp
    qed
    finally have "(2::rat) powi (k - 1) \<le> x" by (simp add: x)
    with False show ?thesis by (simp add: ilog2_def pq k_def)
  qed
qed

lemma fl_nonneg: "0 \<le> x \<Longrightarrow> 0 \<le> fl x"
  by (auto simp: fl_def Let_def intro!: mult_nonneg_nonneg round_even_nonneg divide_nonneg_nonneg)

lemma fl_zero: "fl 0 = 0"
  by (simp add: fl_def)

lemma fl_error: "\<bar>fl x - x\<bar> \<le> \<bar>x\<bar> / 2 ^ 53"
proof (cases "x = 0")
  case True
  then show ?thesis by (simp add: fl_def)
next
  case False
  define e where "e = ilog2 \<bar>x\<bar>"
  define u :: rat where "u = 2 powi (e - 52)"
  define r where "r = round_even (\<bar>x\<bar> / u)"
  have u: "0 < u" by (simp add: u_def)
  have fx: "fl x = sgn x * of_int r * u"
    using False by (simp add: fl_def Let_def r_def u_def e_def)
  have "fl x - x = sgn x * (of_int r * u - \<bar>x\<bar>)"
    by (simp add: fx algebra_simps flip: mult_sgn_abs) (metis mult.commute mult_sgn_abs)
  then have "\<bar>fl x - x\<bar> = \<bar>of_int r * u - \<bar>x\<bar>\<bar>"
    using False by (simp add: abs_mult abs_sgn_eq)
  also have "\<dots> = \<bar>of_int r - \<bar>x\<bar> / u\<bar> * u"
  proof -
    have "of_int r * u - \<bar>x\<bar> = (of_int r - \<bar>x\<bar> / u) * u"
      using u by (simp add: field_simps)
    then show ?thesis using u by (simp add: abs_mult)
  qed
  also have "\<dots> \<le> 1 / 2 * u"
    using round_even_error [of "\<bar>x\<bar> / u"] u unfolding r_def
    by (intro mult_right_mono) simp_all
  also have "\<dots> = 2 powi e / 2 ^ 53"
  proof -
    have "u = 2 powi e / 2 powi 52" by (simp add: u_def power_int_diff)
    then show ?thesis by simp
  qed
  also have "\<dots> \<le> \<bar>x\<bar> / 2 ^ 53"
    using ilog2_le [of "\<bar>x\<bar>"] False by (simp add: e_def divide_right_mono)
  finally show ?thesis .
qed

lemma ilog2_less:
  assumes "0 < x"
  shows "x < 2 powi (ilog2 x + 1)"
proof -
  obtain p q where pq: "quotient_of x = (p, q)" by (cases "quotient_of x")
  then have q: "0 < q" and x: "x = of_int p / of_int q"
    by (simp_all add: quotient_of_denom_pos quotient_of_div)
  with assms have p: "0 < p"
    by (simp add: zero_less_divide_iff)
  define k where "k = bitlen p - bitlen q"
  show ?thesis
  proof (cases "(2::rat) powi k \<le> x")
    case False
    then show ?thesis by (simp add: ilog2_def pq k_def)
  next
    case True
    have bp: "p < 2 ^ nat (bitlen p)" and bq: "2 ^ nat (bitlen q - 1) \<le> q"
      using bitlen_bounds [OF p] bitlen_bounds [OF q] by simp_all
    have bp0: "0 \<le> bitlen p" by (rule bitlen_nonneg)
    have bq1: "1 \<le> bitlen q" using q bitlen_eq_zero_iff [of q] bitlen_nonneg [of q] by linarith
    have "of_int p / of_int q < (2::rat) ^ nat (bitlen p) / 2 ^ nat (bitlen q - 1)"
    proof (rule frac_less)
      show "(0::rat) \<le> of_int p" using p by simp
      have "(of_int p :: rat) < of_int (2 ^ nat (bitlen p))" using bp by (simp only: of_int_less_iff)
      then show "(of_int p :: rat) < 2 ^ nat (bitlen p)" by simp
      show "(0::rat) < 2 ^ nat (bitlen q - 1)" by simp
      have "(of_int (2 ^ nat (bitlen q - 1)) :: rat) \<le> of_int q" using bq by (simp only: of_int_le_iff)
      then show "(2::rat) ^ nat (bitlen q - 1) \<le> of_int q" by simp
    qed
    also have "\<dots> = 2 powi (bitlen p) / 2 powi (bitlen q - 1)"
      using bp0 bq1 by (simp add: power_int_def)
    also have "\<dots> = 2 powi (bitlen p - (bitlen q - 1))"
      by (rule power_int_diff [symmetric]) simp
    also have "bitlen p - (bitlen q - 1) = k + 1" by (simp add: k_def)
    finally have "x < 2 powi (k + 1)" by (simp only: x)
    with True show ?thesis by (simp add: ilog2_def pq k_def)
  qed
qed

text \<open>
  The value \<open>fl x\<close> is a number with a 53-bit significand at the exponent of \<open>x\<close> (or
  the next power of two): the rounding is the one of binary64.
\<close>

lemma round_even_between:
  assumes "of_int a \<le> x" and "x \<le> of_int b"
  shows "a \<le> round_even x \<and> round_even x \<le> b"
proof -
  have fa: "a \<le> \<lfloor>x\<rfloor>" using assms(1) by (simp add: le_floor_iff)
  have fb: "\<lfloor>x\<rfloor> \<le> b" using assms(2) by (simp add: floor_le_iff) 
  show ?thesis
  proof (cases "x = of_int \<lfloor>x\<rfloor>")
    case True
    then have "x - of_int \<lfloor>x\<rfloor> < 1 / 2" by simp
    then have "round_even x = \<lfloor>x\<rfloor>" by (simp add: round_even_def)
    with fa fb show ?thesis by simp
  next
    case False
    have l: "of_int \<lfloor>x\<rfloor> \<le> x" by (rule of_int_floor_le)
    from False have ne: "of_int \<lfloor>x\<rfloor> \<noteq> x" by (rule not_sym)
    from l ne have "of_int \<lfloor>x\<rfloor> < x" by (rule le_neq_trans)
    with assms(2) have "(of_int \<lfloor>x\<rfloor> :: rat) < of_int b" by simp
    then have "\<lfloor>x\<rfloor> < b" by (simp only: of_int_less_iff)
    moreover have "round_even x = \<lfloor>x\<rfloor> \<or> round_even x = \<lfloor>x\<rfloor> + 1"
      by (simp add: round_even_def Let_def)
    ultimately show ?thesis using fa by auto
  qed
qed

lemma fl_significand:
  assumes "x \<noteq> 0"
  shows "\<exists>r. fl x = sgn x * of_int r * 2 powi (ilog2 \<bar>x\<bar> - 52) \<and> 2 ^ 52 \<le> r \<and> r \<le> 2 ^ 53"
proof -
  define e where "e = ilog2 \<bar>x\<bar>"
  define u :: rat where "u = 2 powi (e - 52)"
  define r where "r = round_even (\<bar>x\<bar> / u)"
  have u: "0 < u" by (simp add: u_def)
  have ax: "0 < \<bar>x\<bar>" using assms by simp
  have u1: "u * 2 ^ 52 = 2 powi e"
  proof -
    have "u = 2 powi e / 2 powi 52" unfolding u_def by (rule power_int_diff) simp
    then show ?thesis by simp
  qed
  have u2: "u * 2 ^ 53 = 2 powi (e + 1)"
  proof -
    have "(2::rat) powi (e + 1) = 2 powi e * 2 powi 1" by (rule power_int_add) simp
    with u1 show ?thesis by simp
  qed
  have "u * 2 ^ 52 \<le> \<bar>x\<bar>" using ilog2_le [OF ax] by (simp only: u1 e_def)
  then have lo: "of_int (2 ^ 52) \<le> \<bar>x\<bar> / u" using u by (simp add: pos_le_divide_eq mult.commute)
  have "\<bar>x\<bar> < u * 2 ^ 53" using ilog2_less [OF ax] by (simp only: u2 e_def)
  then have hi: "\<bar>x\<bar> / u \<le> of_int (2 ^ 53)" using u by (simp add: pos_divide_le_eq mult.commute)
  from round_even_between [OF lo hi] have "2 ^ 52 \<le> r \<and> r \<le> 2 ^ 53" by (simp only: r_def)
  moreover have "fl x = sgn x * of_int r * 2 powi (ilog2 \<bar>x\<bar> - 52)"
    using assms by (simp add: fl_def Let_def r_def u_def e_def)
  ultimately show ?thesis by blast
qed

section \<open>Decimal rendering\<close>

lemma dec_digits_small: "n < 10 \<Longrightarrow> dec_digits n = [digit_char n]"
  by (simp add: dec_digits.simps)

lemma dec_digits_large: "10 \<le> n \<Longrightarrow> dec_digits n = dec_digits (n div 10) @ [digit_char (n mod 10)]"
  by (subst dec_digits.simps) simp

lemma dec_digits_nonempty: "dec_digits n \<noteq> []"
  by (subst dec_digits.simps) simp

lemma digit_char_0: "digit_char 0 = CHR ''0''"
  by code_simp

lemma toFixed1_nonneg:
  assumes "0 \<le> x" and "x < 10 ^ 21"
  shows "toFixed1 x = dec_digits (nat \<lfloor>x * 10 + 1 / 2\<rfloor> div 10) @ ''.''
                        @ [digit_char (nat \<lfloor>x * 10 + 1 / 2\<rfloor> mod 10)]"
proof -
  define d where "d = nat \<lfloor>x * 10 + 1 / 2\<rfloor>"
  have x: "\<not> x < 0" "\<bar>x\<bar> = x" using assms by simp_all
  have nl: "(1000000000000000000000 \<le> x) = False" using assms(2) by simp
  show ?thesis
  proof (cases "d < 10")
    case True
    then have "dec_digits d = [digit_char d]" "dec_digits (d div 10) = ''0''"
      by (simp_all add: dec_digits_small digit_char_0)
    then show ?thesis
      using True by (simp add: toFixed1_def x nl Let_def flip: d_def)
  next
    case False
    then have dd: "dec_digits d = dec_digits (d div 10) @ [digit_char (d mod 10)]"
      by (simp add: dec_digits_large)
    have "length (dec_digits (d div 10)) \<noteq> 0"
      using dec_digits_nonempty [of "d div 10"] by simp
    then show ?thesis
      by (simp add: toFixed1_def x nl Let_def dd flip: d_def)
  qed
qed




section \<open>The two results of the aggregator\<close>

lemma extractUsage_Nil: "extractUsage nrm [] engine = None"
  by (simp add: extractUsage_def extractCodexCumulativeUsage_def extractCurrentUsage_def)

lemma runtimeWindows_Nil: "runtimeWindows [] = []"
  by (simp add: runtimeWindows_def map_filter_simps)

lemma use_default:
  assumes "extractUsage nrm ms engine = None"
  shows "useContextWindowUsage nrm gcws gul ms model engine =
           \<lparr> currentTokens = 0,
             contextWindowSize = resolvedWindow gcws ms model engine,
             percentage = 0,
             breakdown = zeroUsage,
             level = low,
             hasData = False,
             formattedPercentage = ''0%'',
             formattedTokens = ''0 / '' @ formatK (resolvedWindow gcws ms model engine) \<rparr>"
  using assms unfolding useContextWindowUsage_def extractUsage_def [symmetric]
  by (simp add: Let_def zeroUsage_def resolvedWindow_def contextWindow_loop_take runtimeWindows_Nil)

lemma use_data:
  assumes "extractUsage nrm ms engine = Some u"
  shows "useContextWindowUsage nrm gcws gul ms model engine =
           (let tokens = inputTokens u + cacheCreationTokens u + cacheReadTokens u;
                w = resolvedWindow gcws ms model engine;
                pct = (if w > 0 then min (js_mul (js_div (of_nat tokens) (of_int w)) 100) 100 else 0)
            in \<lparr> currentTokens = tokens,
                 contextWindowSize = w,
                 percentage = pct,
                 breakdown = u,
                 level = gul pct,
                 hasData = True,
                 formattedPercentage = toFixed1 pct @ ''%'',
                 formattedTokens = formatK (int tokens) @ '' / '' @ formatK w \<rparr>)"
proof -
  from assms have "ms \<noteq> []" using extractUsage_Nil [of nrm engine] by auto
  with assms show ?thesis
    unfolding useContextWindowUsage_def extractUsage_def [symmetric]
    by (simp add: Let_def resolvedWindow_def contextWindow_loop_take)
qed

lemma mostRecent_exists:
  "\<exists>m\<in>set ms. P m \<Longrightarrow> mostRecent P ms = Some (last (filter P ms))"
  by (auto simp: mostRecent_def filter_empty_conv)

section \<open>The claims\<close>

text \<open>
  C1. For the codex engine, when some message of the list carries in its engine metadata
  a cumulative usage snapshot that normalises to a field above zero, the extractor
  returns the normalised snapshot of the most recent such message, as it stands: no
  per-message usage is added to it. The aggregator reports that snapshot as its
  breakdown.
\<close>

theorem codex_snapshot_authoritative:
  assumes "\<exists>m\<in>set ms. carriesSnapshot nrm m"
  shows "extractCodexCumulativeUsage nrm ms
           = Some (normalizeUsageForIndicator nrm
                     (snapshotOf (last (filter (carriesSnapshot nrm) ms))))
       \<and> hasData (useContextWindowUsage nrm gcws gul ms model (Some ''codex''))
       \<and> breakdown (useContextWindowUsage nrm gcws gul ms model (Some ''codex''))
           = normalizeUsageForIndicator nrm
               (snapshotOf (last (filter (carriesSnapshot nrm) ms)))"
proof -
  let ?u = "normalizeUsageForIndicator nrm (snapshotOf (last (filter (carriesSnapshot nrm) ms)))"
  from assms have "mostRecent (carriesSnapshot nrm) ms = Some (last (filter (carriesSnapshot nrm) ms))"
    by (rule mostRecent_exists)
  then have e: "extractCodexCumulativeUsage nrm ms = Some ?u"
    by (rule extractCodexCumulativeUsage_snapshot)
  then have "extractUsage nrm ms (Some ''codex'') = Some ?u"
    by (simp add: extractUsage_def)
  from use_data [OF this] e show ?thesis
    by (simp add: Let_def)
qed

theorem codex_snapshot_authoritative_witness:
  "carriesSnapshot normalizeRawUsage
     (metaMsg JUndefined (JObj [(''usage'', JObj [(''input_tokens'', JNum 500), (''output_tokens'', JNum 40)])]))
   \<and> extractCodexCumulativeUsage normalizeRawUsage
       [metaMsg JUndefined (JObj [(''usage'', JObj [(''input_tokens'', JNum 500), (''output_tokens'', JNum 40)])]),
        usageMsg (inputOnly 10), usageMsg (inputOnly 20)]
     = Some \<lparr> inputTokens = 500, outputTokens = 40, cacheCreationTokens = 0, cacheReadTokens = 0 \<rparr>"
proof -
  let ?s = "metaMsg JUndefined (JObj [(''usage'', JObj [(''input_tokens'', JNum 500), (''output_tokens'', JNum 40)])])"
  let ?ms = "[?s, usageMsg (inputOnly 10), usageMsg (inputOnly 20)]"
  have c: "carriesSnapshot normalizeRawUsage ?s" by code_simp
  then have h: "\<exists>m\<in>set ?ms. carriesSnapshot normalizeRawUsage m" by simp
  have v: "normalizeUsageForIndicator normalizeRawUsage
             (snapshotOf (last (filter (carriesSnapshot normalizeRawUsage) ?ms)))
           = \<lparr> inputTokens = 500, outputTokens = 40, cacheCreationTokens = 0, cacheReadTokens = 0 \<rparr>"
    by code_simp
  from codex_snapshot_authoritative [OF h] c v show ?thesis by simp
qed

text \<open>
  C2. For the codex engine, when no message carries a cumulative snapshot with a field
  above zero, the extractor returns the field-wise sum of the normalised direct usage of
  every message that carries direct usage data and is not tagged with the
  cumulative-update event type; when no such message has a field above zero, it returns
  no data. Three untagged messages with \<open>input_tokens\<close> 10, 20 and 30 give
  \<open>inputTokens = 60\<close>.
\<close>

theorem codex_fallback_sums_deltas:
  assumes "\<forall>m\<in>set ms. \<not> carriesSnapshot nrm m"
  shows "extractCodexCumulativeUsage nrm ms
           = (if \<exists>m\<in>set ms. contributes nrm m
              then Some (sumUsage nrm (filter isDelta ms))
              else None)"
proof -
  from assms have "mostRecent (carriesSnapshot nrm) ms = None"
    by (simp add: mostRecent_None_iff)
  then show ?thesis by (rule extractCodexCumulativeUsage_sum)
qed

theorem codex_fallback_sums_deltas_witness:
  "\<not> carriesSnapshot normalizeRawUsage (usageMsg (inputOnly 10))
   \<and> \<not> carriesSnapshot normalizeRawUsage (usageMsg (inputOnly 20))
   \<and> \<not> carriesSnapshot normalizeRawUsage (usageMsg (inputOnly 30))
   \<and> extractCodexCumulativeUsage normalizeRawUsage
        [usageMsg (inputOnly 10), usageMsg (inputOnly 20), usageMsg (inputOnly 30)]
      = Some \<lparr> inputTokens = 60, outputTokens = 0, cacheCreationTokens = 0, cacheReadTokens = 0 \<rparr>
   \<and> \<not> carriesSnapshot normalizeRawUsage
        (metaMsg (inputOnly 1000) (JObj [(''codexItemType'', JStr ''thread_token_usage_updated'')]))
   \<and> extractCodexCumulativeUsage normalizeRawUsage
        [usageMsg (inputOnly 10),
         metaMsg (inputOnly 1000) (JObj [(''codexItemType'', JStr ''thread_token_usage_updated'')]),
         usageMsg (inputOnly 20)]
      = Some \<lparr> inputTokens = 30, outputTokens = 0, cacheCreationTokens = 0, cacheReadTokens = 0 \<rparr>
   \<and> extractCodexCumulativeUsage normalizeRawUsage
        [metaMsg (inputOnly 1000) (JObj [(''codexItemType'', JStr ''thread_token_usage_updated'')])]
      = None"
proof -
  let ?a = "usageMsg (inputOnly 10)" and ?b = "usageMsg (inputOnly 20)" and ?c = "usageMsg (inputOnly 30)"
  let ?t = "metaMsg (inputOnly 1000) (JObj [(''codexItemType'', JStr ''thread_token_usage_updated'')])"
  have n: "\<not> carriesSnapshot normalizeRawUsage ?a" "\<not> carriesSnapshot normalizeRawUsage ?b"
    "\<not> carriesSnapshot normalizeRawUsage ?c" "\<not> carriesSnapshot normalizeRawUsage ?t"
    by code_simp+
  have h1: "\<forall>m\<in>set [?a, ?b, ?c]. \<not> carriesSnapshot normalizeRawUsage m" using n by simp
  have h2: "\<forall>m\<in>set [?a, ?t, ?b]. \<not> carriesSnapshot normalizeRawUsage m" using n by simp
  have h3: "\<forall>m\<in>set [?t]. \<not> carriesSnapshot normalizeRawUsage m" using n by simp
  have v1: "(if \<exists>m\<in>set [?a, ?b, ?c]. contributes normalizeRawUsage m
             then Some (sumUsage normalizeRawUsage (filter isDelta [?a, ?b, ?c])) else None)
            = Some \<lparr> inputTokens = 60, outputTokens = 0, cacheCreationTokens = 0, cacheReadTokens = 0 \<rparr>"
    by code_simp
  have v2: "(if \<exists>m\<in>set [?a, ?t, ?b]. contributes normalizeRawUsage m
             then Some (sumUsage normalizeRawUsage (filter isDelta [?a, ?t, ?b])) else None)
            = Some \<lparr> inputTokens = 30, outputTokens = 0, cacheCreationTokens = 0, cacheReadTokens = 0 \<rparr>"
    by code_simp
  have v3: "(if \<exists>m\<in>set [?t]. contributes normalizeRawUsage m
             then Some (sumUsage normalizeRawUsage (filter isDelta [?t])) else None) = None"
    by code_simp
  from codex_fallback_sums_deltas [OF h1] codex_fallback_sums_deltas [OF h2]
    codex_fallback_sums_deltas [OF h3] n v1 v2 v3
  show ?thesis by (simp only: simp_thms)
qed

text \<open>
  C3. Whenever usage is extracted, \<open>currentTokens\<close> of the result is
  \<open>inputTokens + cacheCreationTokens + cacheReadTokens\<close> of the extracted usage;
  \<open>outputTokens\<close> stays in the breakdown and is not counted. The usage
  \<open>{input: 100, cacheCreation: 20, cacheRead: 10, output: 500}\<close> gives 130.
\<close>

theorem currentTokens_excludes_output:
  assumes "extractUsage nrm ms engine = Some u"
  shows "currentTokens (useContextWindowUsage nrm gcws gul ms model engine)
           = inputTokens u + cacheCreationTokens u + cacheReadTokens u
       \<and> breakdown (useContextWindowUsage nrm gcws gul ms model engine) = u"
  using use_data [OF assms] by (simp add: Let_def)

theorem currentTokens_excludes_output_witness:
  "extractUsage normalizeRawUsage
      [usageMsg (JObj [(''input_tokens'', JNum 100), (''cache_creation_input_tokens'', JNum 20),
                       (''cache_read_input_tokens'', JNum 10), (''output_tokens'', JNum 500)])]
      (Some ''claude'')
     = Some \<lparr> inputTokens = 100, outputTokens = 500, cacheCreationTokens = 20, cacheReadTokens = 10 \<rparr>
   \<and> currentTokens (useContextWindowUsage normalizeRawUsage exampleWindowSize exampleUsageLevel
        [usageMsg (JObj [(''input_tokens'', JNum 100), (''cache_creation_input_tokens'', JNum 20),
                         (''cache_read_input_tokens'', JNum 10), (''output_tokens'', JNum 500)])]
        (Some ''sonnet'') (Some ''claude'')) = 130"
proof -
  let ?ms = "[usageMsg (JObj [(''input_tokens'', JNum 100), (''cache_creation_input_tokens'', JNum 20),
                       (''cache_read_input_tokens'', JNum 10), (''output_tokens'', JNum 500)])]"
  have h: "extractUsage normalizeRawUsage ?ms (Some ''claude'')
     = Some \<lparr> inputTokens = 100, outputTokens = 500, cacheCreationTokens = 20, cacheReadTokens = 10 \<rparr>"
    by code_simp
  from currentTokens_excludes_output [OF h] h show ?thesis by simp
qed

text \<open>
  C5. For every engine other than codex, the extraction returns the normalised usage of
  the most recent message whose usage has a field above zero, the usage of a message
  being its direct \<open>usage\<close> field when that is there and the one under its \<open>message\<close>
  sub-object otherwise; when there is no such message, it returns no data.
\<close>

theorem generic_extraction_most_recent:
  assumes "engine \<noteq> Some ''codex''"
  shows "extractCurrentUsage nrm ms engine
           = (if \<exists>m\<in>set ms. carriesUsage nrm m
              then Some (normalizeUsageForIndicator nrm
                           (usageOf (last (filter (carriesUsage nrm) ms))))
              else None)"
proof (cases "\<exists>m\<in>set ms. carriesUsage nrm m")
  case True
  then have "mostRecent (carriesUsage nrm) ms = Some (last (filter (carriesUsage nrm) ms))"
    by (rule mostRecent_exists)
  with True assms show ?thesis by (simp add: extractCurrentUsage_all)
next
  case False
  then have "mostRecent (carriesUsage nrm) ms = None" by (simp add: mostRecent_None_iff)
  with False assms show ?thesis by (simp add: extractCurrentUsage_all)
qed

theorem generic_extraction_most_recent_witness:
  "Some ''claude'' \<noteq> Some ''codex''
   \<and> extractCurrentUsage normalizeRawUsage
        [usageMsg (inputOnly 7), nestedMsg (inputOnly 42), plainMsg, usageMsg (JObj [])]
        (Some ''claude'')
      = Some \<lparr> inputTokens = 42, outputTokens = 0, cacheCreationTokens = 0, cacheReadTokens = 0 \<rparr>
   \<and> extractCurrentUsage normalizeRawUsage
        [\<lparr> usage = inputOnly 7, message = JObj [(''usage'', inputOnly 99)], codexMetadata = JUndefined \<rparr>]
        (Some ''claude'')
      = Some \<lparr> inputTokens = 7, outputTokens = 0, cacheCreationTokens = 0, cacheReadTokens = 0 \<rparr>
   \<and> extractCurrentUsage normalizeRawUsage [plainMsg, usageMsg (JObj [])] (Some ''claude'') = None"
proof -
  have h: "Some ''claude'' \<noteq> Some ''codex''" by simp
  let ?l1 = "[usageMsg (inputOnly 7), nestedMsg (inputOnly 42), plainMsg, usageMsg (JObj [])]"
  let ?l2 = "[\<lparr> usage = inputOnly 7, message = JObj [(''usage'', inputOnly 99)], codexMetadata = JUndefined \<rparr>]"
  let ?l3 = "[plainMsg, usageMsg (JObj [])]"
  have v1: "(if \<exists>m\<in>set ?l1. carriesUsage normalizeRawUsage m
             then Some (normalizeUsageForIndicator normalizeRawUsage
                          (usageOf (last (filter (carriesUsage normalizeRawUsage) ?l1))))
             else None)
            = Some \<lparr> inputTokens = 42, outputTokens = 0, cacheCreationTokens = 0, cacheReadTokens = 0 \<rparr>"
    by code_simp
  have v2: "(if \<exists>m\<in>set ?l2. carriesUsage normalizeRawUsage m
             then Some (normalizeUsageForIndicator normalizeRawUsage
                          (usageOf (last (filter (carriesUsage normalizeRawUsage) ?l2))))
             else None)
            = Some \<lparr> inputTokens = 7, outputTokens = 0, cacheCreationTokens = 0, cacheReadTokens = 0 \<rparr>"
    by code_simp
  have v3: "(if \<exists>m\<in>set ?l3. carriesUsage normalizeRawUsage m
             then Some (normalizeUsageForIndicator normalizeRawUsage
                          (usageOf (last (filter (carriesUsage normalizeRawUsage) ?l3))))
             else None) = None"
    by code_simp
  from generic_extraction_most_recent [OF h, of normalizeRawUsage ?l1]
    generic_extraction_most_recent [OF h, of normalizeRawUsage ?l2]
    generic_extraction_most_recent [OF h, of normalizeRawUsage ?l3] v1 v2 v3 h
  show ?thesis by (simp only: simp_thms)
qed

lemma contextWindowSize_resolved:
  "contextWindowSize (useContextWindowUsage nrm gcws gul ms model engine)
     = resolvedWindow gcws ms model engine"
proof (cases "extractUsage nrm ms engine")
  case None
  from use_default [OF this] show ?thesis by simp
next
  case (Some u)
  from use_data [OF this] show ?thesis by (simp add: Let_def)
qed

text \<open>
  C6. For the codex engine, \<open>contextWindowSize\<close> is the most recent context window
  reported in the metadata of a message as a number above zero; when no message reports
  one, it is the value of the static table.
\<close>

theorem codex_runtime_window_overrides:
  "contextWindowSize (useContextWindowUsage nrm gcws gul ms model (Some ''codex''))
     = (if runtimeWindows ms = [] then gcws model (Some ''codex'') else last (runtimeWindows ms))"
  by (simp add: contextWindowSize_resolved resolvedWindow_def)

theorem codex_runtime_window_overrides_witness:
  "runtimeWindows
     [metaMsg JUndefined (JObj [(''modelContextWindow'', JNum 272000)]),
      metaMsg (inputOnly 10) (JObj [(''modelContextWindow'', JNum 400000)]),
      metaMsg JUndefined (JObj [(''modelContextWindow'', JNum 0)]),
      metaMsg JUndefined (JObj [(''modelContextWindow'', JStr ''258000'')]),
      plainMsg] = [272000, 400000]
   \<and> contextWindowSize (useContextWindowUsage normalizeRawUsage exampleWindowSize exampleUsageLevel
        [metaMsg JUndefined (JObj [(''modelContextWindow'', JNum 272000)]),
         metaMsg (inputOnly 10) (JObj [(''modelContextWindow'', JNum 400000)]),
         metaMsg JUndefined (JObj [(''modelContextWindow'', JNum 0)]),
         metaMsg JUndefined (JObj [(''modelContextWindow'', JStr ''258000'')]),
         plainMsg] (Some ''gpt-5'') (Some ''codex'')) = 400000
   \<and> runtimeWindows [usageMsg (inputOnly 10)] = []
   \<and> contextWindowSize (useContextWindowUsage normalizeRawUsage exampleWindowSize exampleUsageLevel
        [usageMsg (inputOnly 10)] (Some ''gpt-5'') (Some ''codex'')) = 128000"
proof -
  let ?l = "[metaMsg JUndefined (JObj [(''modelContextWindow'', JNum 272000)]),
      metaMsg (inputOnly 10) (JObj [(''modelContextWindow'', JNum 400000)]),
      metaMsg JUndefined (JObj [(''modelContextWindow'', JNum 0)]),
      metaMsg JUndefined (JObj [(''modelContextWindow'', JStr ''258000'')]),
      plainMsg]"
  have r1: "runtimeWindows ?l = [272000, 400000]" by code_simp
  have r2: "runtimeWindows [usageMsg (inputOnly 10)] = []" by code_simp
  have t: "exampleWindowSize (Some ''gpt-5'') (Some ''codex'') = 128000"
    by (simp add: exampleWindowSize_def)
  from codex_runtime_window_overrides [of normalizeRawUsage exampleWindowSize exampleUsageLevel ?l "Some ''gpt-5''"]
    codex_runtime_window_overrides [of normalizeRawUsage exampleWindowSize exampleUsageLevel
      "[usageMsg (inputOnly 10)]" "Some ''gpt-5''"]
    r1 r2 t
  show ?thesis by simp
qed

text \<open>
  C7. For an empty message list, and whenever the extraction returns no data, the result
  has \<open>hasData = false\<close>, \<open>currentTokens = 0\<close>, \<open>percentage = 0\<close> and an all-zero
  breakdown, and \<open>contextWindowSize\<close> is the window resolved for the model and the
  engine (for the empty list, the static table's value). The aggregator is a total
  function of its arguments: no path of it raises.
\<close>

theorem no_data_result:
  assumes "ms = [] \<or> extractUsage nrm ms engine = None"
  shows "hasData (useContextWindowUsage nrm gcws gul ms model engine) = False
       \<and> currentTokens (useContextWindowUsage nrm gcws gul ms model engine) = 0
       \<and> percentage (useContextWindowUsage nrm gcws gul ms model engine) = 0
       \<and> breakdown (useContextWindowUsage nrm gcws gul ms model engine) = zeroUsage
       \<and> contextWindowSize (useContextWindowUsage nrm gcws gul ms model engine)
           = resolvedWindow gcws ms model engine
       \<and> (ms = [] \<longrightarrow> contextWindowSize (useContextWindowUsage nrm gcws gul ms model engine)
                        = gcws model engine)"
proof -
  from assms have "extractUsage nrm ms engine = None"
    using extractUsage_Nil [of nrm engine] by auto
  from use_default [OF this] show ?thesis
    by (auto simp: resolvedWindow_def runtimeWindows_Nil)
qed

theorem no_data_result_witness:
  "hasData (useContextWindowUsage normalizeRawUsage exampleWindowSize exampleUsageLevel []
              (Some ''sonnet'') (Some ''claude'')) = False
   \<and> currentTokens (useContextWindowUsage normalizeRawUsage exampleWindowSize exampleUsageLevel []
              (Some ''sonnet'') (Some ''claude'')) = 0
   \<and> percentage (useContextWindowUsage normalizeRawUsage exampleWindowSize exampleUsageLevel []
              (Some ''sonnet'') (Some ''claude'')) = 0
   \<and> contextWindowSize (useContextWindowUsage normalizeRawUsage exampleWindowSize exampleUsageLevel []
              (Some ''sonnet'') (Some ''claude'')) = 200000
   \<and> extractUsage normalizeRawUsage [plainMsg, usageMsg (JObj [])] (Some ''codex'') = None
   \<and> hasData (useContextWindowUsage normalizeRawUsage exampleWindowSize exampleUsageLevel
              [plainMsg, usageMsg (JObj [])] (Some ''gpt-5'') (Some ''codex'')) = False
   \<and> contextWindowSize (useContextWindowUsage normalizeRawUsage exampleWindowSize exampleUsageLevel
              [plainMsg, usageMsg (JObj [])] (Some ''gpt-5'') (Some ''codex'')) = 128000"
proof -
  have h1: "([]::ClaudeStreamMessage list) = [] \<or> extractUsage normalizeRawUsage [] (Some ''claude'') = None"
    by simp
  have e: "extractUsage normalizeRawUsage [plainMsg, usageMsg (JObj [])] (Some ''codex'') = None"
    by code_simp
  then have h2: "[plainMsg, usageMsg (JObj [])] = []
      \<or> extractUsage normalizeRawUsage [plainMsg, usageMsg (JObj [])] (Some ''codex'') = None"
    by simp
  have t: "exampleWindowSize (Some ''sonnet'') (Some ''claude'') = 200000"
    "resolvedWindow exampleWindowSize [plainMsg, usageMsg (JObj [])] (Some ''gpt-5'') (Some ''codex'') = 128000"
    by code_simp+
  from no_data_result [OF h1, of exampleWindowSize exampleUsageLevel "Some ''sonnet''"]
    no_data_result [OF h2, of exampleWindowSize exampleUsageLevel "Some ''gpt-5''"] e t
  show ?thesis by simp
qed

lemma js_percent_zero: "min (js_mul (js_div 0 w) 100) 100 = 0"
  by (simp add: js_div_def js_mul_def fl_zero)

text \<open>
  C10. For every engine other than codex, a message whose normalised usage has
  \<open>outputTokens\<close> above zero and zero \<open>inputTokens\<close>, \<open>cacheCreationTokens\<close> and
  \<open>cacheReadTokens\<close> counts as usage data: when it is the most recent message with
  usage data, the result has \<open>hasData = true\<close>, \<open>currentTokens = 0\<close> and
  \<open>percentage = 0\<close>.
\<close>

theorem output_only_usage_is_data:
  assumes "engine \<noteq> Some ''codex''"
    and "ms = pre @ m # post"
    and "isUsageObject (usageOf m)"
    and "outputTokens (normalizeUsageForIndicator nrm (usageOf m)) > 0"
    and "inputTokens (normalizeUsageForIndicator nrm (usageOf m)) = 0"
    and "cacheCreationTokens (normalizeUsageForIndicator nrm (usageOf m)) = 0"
    and "cacheReadTokens (normalizeUsageForIndicator nrm (usageOf m)) = 0"
    and "\<forall>x\<in>set post. \<not> carriesUsage nrm x"
  shows "hasData (useContextWindowUsage nrm gcws gul ms model engine)
       \<and> currentTokens (useContextWindowUsage nrm gcws gul ms model engine) = 0
       \<and> percentage (useContextWindowUsage nrm gcws gul ms model engine) = 0
       \<and> breakdown (useContextWindowUsage nrm gcws gul ms model engine)
           = normalizeUsageForIndicator nrm (usageOf m)"
proof -
  let ?u = "normalizeUsageForIndicator nrm (usageOf m)"
  from assms(3,4) have "carriesUsage nrm m" by (simp add: carriesUsage_def hasTokens_def)
  with assms(2,8) have "mostRecent (carriesUsage nrm) ms = Some m"
    unfolding mostRecent_Some_iff by blast
  with assms(1) have "extractUsage nrm ms engine = Some ?u"
    by (simp add: extractUsage_def extractCurrentUsage_all)
  from use_data [OF this] assms(5,6,7) show ?thesis
    by (simp add: Let_def js_percent_zero)
qed

theorem output_only_usage_is_data_witness:
  "Some ''claude'' \<noteq> Some ''codex''
   \<and> isUsageObject (usageOf (usageMsg (JObj [(''output_tokens'', JNum 25)])))
   \<and> normalizeUsageForIndicator normalizeRawUsage (usageOf (usageMsg (JObj [(''output_tokens'', JNum 25)])))
       = \<lparr> inputTokens = 0, outputTokens = 25, cacheCreationTokens = 0, cacheReadTokens = 0 \<rparr>
   \<and> \<not> carriesUsage normalizeRawUsage plainMsg
   \<and> hasData (useContextWindowUsage normalizeRawUsage exampleWindowSize exampleUsageLevel
        [usageMsg (inputOnly 50), usageMsg (JObj [(''output_tokens'', JNum 25)]), plainMsg]
        (Some ''sonnet'') (Some ''claude''))
   \<and> currentTokens (useContextWindowUsage normalizeRawUsage exampleWindowSize exampleUsageLevel
        [usageMsg (inputOnly 50), usageMsg (JObj [(''output_tokens'', JNum 25)]), plainMsg]
        (Some ''sonnet'') (Some ''claude'')) = 0
   \<and> percentage (useContextWindowUsage normalizeRawUsage exampleWindowSize exampleUsageLevel
        [usageMsg (inputOnly 50), usageMsg (JObj [(''output_tokens'', JNum 25)]), plainMsg]
        (Some ''sonnet'') (Some ''claude'')) = 0"
proof -
  let ?m = "usageMsg (JObj [(''output_tokens'', JNum 25)])"
  have h1: "Some ''claude'' \<noteq> Some ''codex''" by simp
  have h2: "[usageMsg (inputOnly 50), ?m, plainMsg] = [usageMsg (inputOnly 50)] @ ?m # [plainMsg]"
    by simp
  have h3: "isUsageObject (usageOf ?m)" by code_simp
  have v: "normalizeUsageForIndicator normalizeRawUsage (usageOf ?m)
       = \<lparr> inputTokens = 0, outputTokens = 25, cacheCreationTokens = 0, cacheReadTokens = 0 \<rparr>"
    by code_simp
  have h4: "outputTokens (normalizeUsageForIndicator normalizeRawUsage (usageOf ?m)) > 0"
    and h5: "inputTokens (normalizeUsageForIndicator normalizeRawUsage (usageOf ?m)) = 0"
    and h6: "cacheCreationTokens (normalizeUsageForIndicator normalizeRawUsage (usageOf ?m)) = 0"
    and h7: "cacheReadTokens (normalizeUsageForIndicator normalizeRawUsage (usageOf ?m)) = 0"
    by (simp_all only: v) simp_all
  have n: "\<not> carriesUsage normalizeRawUsage plainMsg" by code_simp
  then have h8: "\<forall>x\<in>set [plainMsg]. \<not> carriesUsage normalizeRawUsage x" by simp
  from output_only_usage_is_data [OF h1 h2 h3 h4 h5 h6 h7 h8, of exampleWindowSize exampleUsageLevel "Some ''sonnet''"]
    h1 h3 v n
  show ?thesis by (simp only: simp_thms)
qed

lemma fl_twice_error:
  assumes "0 \<le> x"
  shows "\<bar>js_mul (fl x) 100 - x * 100\<bar> \<le> x * 100 / 2 ^ 51"
proof -
  define B :: rat where "B = 2 ^ 53"
  define a where "a = fl x"
  define b where "b = fl (a * 100)"
  have B: "1 \<le> B" by (simp add: B_def)
  have a0: "0 \<le> a" unfolding a_def using assms by (rule fl_nonneg)
  have ea: "\<bar>a - x\<bar> \<le> x / B"
    using fl_error [of x] assms by (simp only: a_def B_def abs_of_nonneg)
  have "\<bar>b - a * 100\<bar> \<le> \<bar>a * 100\<bar> / B"
    using fl_error [of "a * 100"] by (simp only: b_def B_def)
  then have eb: "\<bar>b - a * 100\<bar> \<le> a * 100 / B" using a0 by simp
  have "x / B \<le> x / 1" using assms B by (intro divide_left_mono) simp_all
  with ea have a2: "a \<le> 2 * x" by simp
  have "a * 100 / B \<le> (2 * x) * 100 / B"
    using a2 B by (intro divide_right_mono mult_right_mono) simp_all
  with eb have eb': "\<bar>b - a * 100\<bar> \<le> 200 * (x / B)" by simp
  have "b - x * 100 = (b - a * 100) + 100 * (a - x)" by (simp add: algebra_simps)
  then have "\<bar>b - x * 100\<bar> = \<bar>(b - a * 100) + 100 * (a - x)\<bar>" by (simp only:)
  also have "\<dots> \<le> \<bar>b - a * 100\<bar> + \<bar>100 * (a - x)\<bar>" by (rule abs_triangle_ineq)
  also have "\<bar>100 * (a - x)\<bar> = \<bar>100\<bar> * \<bar>a - x\<bar>" by (rule abs_mult)
  also have "\<bar>100 :: rat\<bar> = 100" by simp
  finally have "\<bar>b - x * 100\<bar> \<le> \<bar>b - a * 100\<bar> + 100 * \<bar>a - x\<bar>" .
  also have "\<dots> \<le> 200 * (x / B) + 100 * (x / B)"
    using eb' ea by (intro add_mono mult_left_mono) simp_all
  also have "\<dots> \<le> 400 * (x / B)"
  proof -
    have "0 \<le> x / B" using assms B by simp
    then show ?thesis by linarith
  qed
  also have "\<dots> = x * 100 / 2 ^ 51" by (simp add: B_def)
  finally show ?thesis by (simp only: b_def a_def js_mul_def)
qed

lemma min_100_close: "\<bar>min b 100 - min c 100\<bar> \<le> \<bar>b - c\<bar>" for b c :: rat
  by (auto simp: min_def)

lemma percentage_formula:
  "percentage (useContextWindowUsage nrm gcws gul ms model engine)
     = (if contextWindowSize (useContextWindowUsage nrm gcws gul ms model engine) > 0
        then min (js_mul (js_div (of_nat (currentTokens (useContextWindowUsage nrm gcws gul ms model engine)))
                                 (of_int (contextWindowSize (useContextWindowUsage nrm gcws gul ms model engine))))
                         100) 100
        else 0)"
proof (cases "extractUsage nrm ms engine")
  case None
  from use_default [OF this] show ?thesis by (simp add: js_percent_zero)
next
  case (Some u)
  from use_data [OF this] show ?thesis by (simp add: Let_def)
qed

lemma js_percent_range:
  assumes "0 < w"
  shows "0 \<le> js_mul (js_div (of_nat c) (of_int w)) 100"
proof -
  have "(0::rat) \<le> of_nat c / of_int w" using assms by simp
  then have "0 \<le> js_div (of_nat c) (of_int w)" unfolding js_div_def by (rule fl_nonneg)
  then have "0 \<le> js_div (of_nat c) (of_int w) * 100" by simp
  then show ?thesis unfolding js_mul_def by (rule fl_nonneg)
qed

lemma percentage_nonneg: "0 \<le> percentage (useContextWindowUsage nrm gcws gul ms model engine)"
  by (subst percentage_formula) (simp add: js_percent_range)

lemma percentage_le_100: "percentage (useContextWindowUsage nrm gcws gul ms model engine) \<le> 100"
  by (subst percentage_formula) simp

lemma js_percent_close:
  assumes "0 < w"
  shows "\<bar>min (js_mul (js_div (of_nat c) (of_int w)) 100) 100 - min (of_nat c / of_int w * 100) 100\<bar>
           \<le> of_nat c / of_int w * 100 / 2 ^ 51"
proof -
  have "(0::rat) \<le> of_nat c / of_int w" using assms by simp
  from fl_twice_error [OF this]
  have "\<bar>js_mul (js_div (of_nat c) (of_int w)) 100 - of_nat c / of_int w * 100\<bar>
          \<le> of_nat c / of_int w * 100 / 2 ^ 51"
    by (simp only: js_div_def)
  with min_100_close [of "js_mul (js_div (of_nat c) (of_int w)) 100" "of_nat c / of_int w * 100"]
  show ?thesis by (rule order_trans)
qed

text \<open>
  C4. For every result of the aggregator, \<open>percentage\<close> is
  \<open>Math.min((currentTokens / contextWindowSize) * 100, 100)\<close> when \<open>contextWindowSize\<close> is
  above zero, and \<open>0\<close> when it is not; so it lies between 0 and 100. The quotient and
  the product are binary64 operations: the value differs from the exact
  \<open>currentTokens / contextWindowSize * 100\<close>, clamped to 100, by at most that exact
  value divided by \<open>2 ^ 51\<close>.
\<close>

theorem percentage_clamped:
  fixes nrm :: "jsval \<Rightarrow> StandardizedTokenUsage"
    and gcws :: "string option \<Rightarrow> string option \<Rightarrow> int"
    and gul :: "rat \<Rightarrow> ContextUsageLevel"
    and ms :: "ClaudeStreamMessage list" and model engine :: "string option"
    and r :: UseContextWindowUsageResult
  defines "r \<equiv> useContextWindowUsage nrm gcws gul ms model engine"
  shows "percentage r
           = (if contextWindowSize r > 0
              then min (js_mul (js_div (of_nat (currentTokens r)) (of_int (contextWindowSize r))) 100) 100
              else 0)
       \<and> (contextWindowSize r > 0 \<longrightarrow>
            \<bar>percentage r - min (of_nat (currentTokens r) / of_int (contextWindowSize r) * 100) 100\<bar>
              \<le> of_nat (currentTokens r) / of_int (contextWindowSize r) * 100 / 2 ^ 51)
       \<and> (contextWindowSize r \<le> 0 \<longrightarrow> percentage r = 0)
       \<and> 0 \<le> percentage r \<and> percentage r \<le> 100"
proof -
  have f: "percentage r
           = (if contextWindowSize r > 0
              then min (js_mul (js_div (of_nat (currentTokens r)) (of_int (contextWindowSize r))) 100) 100
              else 0)"
    unfolding r_def by (rule percentage_formula)
  have c: "contextWindowSize r > 0 \<longrightarrow>
            \<bar>percentage r - min (of_nat (currentTokens r) / of_int (contextWindowSize r) * 100) 100\<bar>
              \<le> of_nat (currentTokens r) / of_int (contextWindowSize r) * 100 / 2 ^ 51"
  proof
    assume w: "contextWindowSize r > 0"
    with f have "percentage r
        = min (js_mul (js_div (of_nat (currentTokens r)) (of_int (contextWindowSize r))) 100) 100"
      by simp
    with js_percent_close [OF w, of "currentTokens r"]
    show "\<bar>percentage r - min (of_nat (currentTokens r) / of_int (contextWindowSize r) * 100) 100\<bar>
              \<le> of_nat (currentTokens r) / of_int (contextWindowSize r) * 100 / 2 ^ 51"
      by (simp only:)
  qed
  have z: "contextWindowSize r \<le> 0 \<longrightarrow> percentage r = 0" using f by simp
  have "0 \<le> percentage r" "percentage r \<le> 100"
    unfolding r_def by (rule percentage_nonneg, rule percentage_le_100)
  with f c z show ?thesis by blast
qed

theorem percentage_clamped_witness:
  "contextWindowSize (useContextWindowUsage normalizeRawUsage (constWindow 1000) exampleUsageLevel
       [usageMsg (inputOnly 1500)] None (Some ''claude'')) = 1000
   \<and> currentTokens (useContextWindowUsage normalizeRawUsage (constWindow 1000) exampleUsageLevel
       [usageMsg (inputOnly 1500)] None (Some ''claude'')) = 1500
   \<and> percentage (useContextWindowUsage normalizeRawUsage (constWindow 1000) exampleUsageLevel
       [usageMsg (inputOnly 1500)] None (Some ''claude'')) = 100
   \<and> contextWindowSize (useContextWindowUsage normalizeRawUsage (constWindow 0) exampleUsageLevel
       [usageMsg (inputOnly 1500)] None (Some ''claude'')) = 0
   \<and> percentage (useContextWindowUsage normalizeRawUsage (constWindow 0) exampleUsageLevel
       [usageMsg (inputOnly 1500)] None (Some ''claude'')) = 0
   \<and> percentage (useContextWindowUsage normalizeRawUsage (constWindow 3) exampleUsageLevel
       [usageMsg (inputOnly 1)] None (Some ''claude'')) = 2345624805922133 / 70368744177664"
proof -
  let ?r1 = "useContextWindowUsage normalizeRawUsage (constWindow 1000) exampleUsageLevel
       [usageMsg (inputOnly 1500)] None (Some ''claude'')"
  let ?r0 = "useContextWindowUsage normalizeRawUsage (constWindow 0) exampleUsageLevel
       [usageMsg (inputOnly 1500)] None (Some ''claude'')"
  let ?r3 = "useContextWindowUsage normalizeRawUsage (constWindow 3) exampleUsageLevel
       [usageMsg (inputOnly 1)] None (Some ''claude'')"
  have e1: "extractUsage normalizeRawUsage [usageMsg (inputOnly 1500)] (Some ''claude'')
              = Some \<lparr> inputTokens = 1500, outputTokens = 0, cacheCreationTokens = 0, cacheReadTokens = 0 \<rparr>"
    and e3: "extractUsage normalizeRawUsage [usageMsg (inputOnly 1)] (Some ''claude'')
              = Some \<lparr> inputTokens = 1, outputTokens = 0, cacheCreationTokens = 0, cacheReadTokens = 0 \<rparr>"
    by code_simp+
  have w1: "contextWindowSize ?r1 = 1000" and c1: "currentTokens ?r1 = 1500"
    using use_data [OF e1, of "constWindow 1000" exampleUsageLevel None]
    by (simp_all add: Let_def resolvedWindow_def constWindow_def)
  have w0: "contextWindowSize ?r0 = 0"
    using use_data [OF e1, of "constWindow 0" exampleUsageLevel None]
    by (simp add: Let_def resolvedWindow_def constWindow_def)
  have w3: "contextWindowSize ?r3 = 3" and c3: "currentTokens ?r3 = 1"
    using use_data [OF e3, of "constWindow 3" exampleUsageLevel None]
    by (simp_all add: Let_def resolvedWindow_def constWindow_def)
  have v1: "min (js_mul (js_div 1500 1000) 100) 100 = (100::rat)" by code_simp
  have v3: "min (js_mul (js_div 1 3) 100) 100 = (2345624805922133 / 70368744177664 :: rat)"
    by code_simp
  from percentage_clamped [of normalizeRawUsage "constWindow 1000" exampleUsageLevel
      "[usageMsg (inputOnly 1500)]" None "Some ''claude''"] w1 c1 v1
  have p1: "percentage ?r1 = 100" by simp
  from percentage_clamped [of normalizeRawUsage "constWindow 0" exampleUsageLevel
      "[usageMsg (inputOnly 1500)]" None "Some ''claude''"] w0
  have p0: "percentage ?r0 = 0" by simp
  from percentage_clamped [of normalizeRawUsage "constWindow 3" exampleUsageLevel
      "[usageMsg (inputOnly 1)]" None "Some ''claude''"] w3 c3 v3
  have p3: "percentage ?r3 = 2345624805922133 / 70368744177664" by simp
  from w1 c1 p1 w0 p0 p3 show ?thesis by (simp only: simp_thms)
qed

lemma hasData_iff:
  "hasData (useContextWindowUsage nrm gcws gul ms model engine)
     \<longleftrightarrow> extractUsage nrm ms engine \<noteq> None"
proof (cases "extractUsage nrm ms engine")
  case None
  from use_default [OF this] None show ?thesis by simp
next
  case (Some u)
  from use_data [OF this] Some show ?thesis by (simp add: Let_def)
qed

lemma formattedPercentage_data:
  assumes "extractUsage nrm ms engine = Some u"
  shows "formattedPercentage (useContextWindowUsage nrm gcws gul ms model engine)
           = toFixed1 (percentage (useContextWindowUsage nrm gcws gul ms model engine)) @ ''%''"
  using use_data [OF assms] by (simp add: Let_def)

text \<open>
  C8, as stated: for every result, \<open>formattedPercentage\<close> is \<open>percentage\<close> formatted to
  one decimal place, followed by \<open>%\<close>. The result for the empty list has the text
  \<open>0%\<close>, while its percentage \<open>0\<close> formats to \<open>0.0\<close>.
\<close>

theorem formattedPercentage_counterexample:
  "formattedPercentage
     (useContextWindowUsage normalizeRawUsage exampleWindowSize exampleUsageLevel [] None None)
   \<noteq> toFixed1 (percentage
        (useContextWindowUsage normalizeRawUsage exampleWindowSize exampleUsageLevel [] None None))
      @ ''%''"
proof -
  have z: "toFixed1 0 = ''0.0''" by code_simp
  have n: "extractUsage normalizeRawUsage [] None = None" by (rule extractUsage_Nil)
  from use_default [OF n, of exampleWindowSize exampleUsageLevel None]
  show ?thesis by (simp add: z)
qed

text \<open>
  C8, amended: for every result with \<open>hasData = true\<close>, \<open>formattedPercentage\<close> is
  \<open>percentage.toFixed(1)\<close> followed by \<open>%\<close>, that is the digits of the nearest number of
  tenths with a point before the last digit; a result with \<open>hasData = false\<close> has the
  fixed text \<open>0%\<close>.
\<close>

theorem formattedPercentage_one_decimal:
  fixes nrm :: "jsval \<Rightarrow> StandardizedTokenUsage"
    and gcws :: "string option \<Rightarrow> string option \<Rightarrow> int"
    and gul :: "rat \<Rightarrow> ContextUsageLevel"
    and ms :: "ClaudeStreamMessage list" and model engine :: "string option"
    and r :: UseContextWindowUsageResult
  defines "r \<equiv> useContextWindowUsage nrm gcws gul ms model engine"
  shows "(hasData r \<longrightarrow>
            formattedPercentage r = toFixed1 (percentage r) @ ''%''
          \<and> formattedPercentage r
              = dec_digits (nat \<lfloor>percentage r * 10 + 1 / 2\<rfloor> div 10) @ ''.''
                  @ [digit_char (nat \<lfloor>percentage r * 10 + 1 / 2\<rfloor> mod 10)] @ ''%'')
       \<and> (\<not> hasData r \<longrightarrow> formattedPercentage r = ''0%'' \<and> percentage r = 0)"
proof (cases "extractUsage nrm ms engine")
  case None
  from use_default [OF this] show ?thesis by (simp add: r_def)
next
  case (Some u)
  then have h: "hasData r" by (simp add: r_def hasData_iff)
  have f: "formattedPercentage r = toFixed1 (percentage r) @ ''%''"
    unfolding r_def using Some by (rule formattedPercentage_data)
  have "0 \<le> percentage r" unfolding r_def by (rule percentage_nonneg)
  moreover have "percentage r \<le> 100" unfolding r_def by (rule percentage_le_100)
  then have "percentage r < 10 ^ 21" by simp
  ultimately have "toFixed1 (percentage r)
      = dec_digits (nat \<lfloor>percentage r * 10 + 1 / 2\<rfloor> div 10) @ ''.''
          @ [digit_char (nat \<lfloor>percentage r * 10 + 1 / 2\<rfloor> mod 10)]"
    by (rule toFixed1_nonneg)
  from this f
  have "formattedPercentage r
          = dec_digits (nat \<lfloor>percentage r * 10 + 1 / 2\<rfloor> div 10) @ ''.''
              @ [digit_char (nat \<lfloor>percentage r * 10 + 1 / 2\<rfloor> mod 10)] @ ''%''"
    by simp
  with h f show ?thesis by simp
qed

theorem formattedPercentage_one_decimal_witness:
  "hasData (useContextWindowUsage normalizeRawUsage (constWindow 1000) exampleUsageLevel
       [usageMsg (inputOnly 130)] None (Some ''claude''))
   \<and> percentage (useContextWindowUsage normalizeRawUsage (constWindow 1000) exampleUsageLevel
       [usageMsg (inputOnly 130)] None (Some ''claude'')) = 13
   \<and> formattedPercentage (useContextWindowUsage normalizeRawUsage (constWindow 1000) exampleUsageLevel
       [usageMsg (inputOnly 130)] None (Some ''claude'')) = ''13.0%''
   \<and> \<not> hasData (useContextWindowUsage normalizeRawUsage (constWindow 1000) exampleUsageLevel
       [plainMsg] None (Some ''claude''))
   \<and> formattedPercentage (useContextWindowUsage normalizeRawUsage (constWindow 1000) exampleUsageLevel
       [plainMsg] None (Some ''claude'')) = ''0%''"
proof -
  let ?r = "useContextWindowUsage normalizeRawUsage (constWindow 1000) exampleUsageLevel
       [usageMsg (inputOnly 130)] None (Some ''claude'')"
  let ?n = "useContextWindowUsage normalizeRawUsage (constWindow 1000) exampleUsageLevel
       [plainMsg] None (Some ''claude'')"
  have e: "extractUsage normalizeRawUsage [usageMsg (inputOnly 130)] (Some ''claude'')
              = Some \<lparr> inputTokens = 130, outputTokens = 0, cacheCreationTokens = 0, cacheReadTokens = 0 \<rparr>"
    and n: "extractUsage normalizeRawUsage [plainMsg] (Some ''claude'') = None"
    by code_simp+
  have v: "min (js_mul (js_div 130 1000) 100) 100 = (13::rat)" by code_simp
  have t: "toFixed1 13 = ''13.0''" by code_simp
  have h: "hasData ?r" and p: "percentage ?r = 13"
    using use_data [OF e, of "constWindow 1000" exampleUsageLevel None] v
    by (simp_all add: Let_def resolvedWindow_def constWindow_def)
  have nh: "\<not> hasData ?n"
    using use_default [OF n, of "constWindow 1000" exampleUsageLevel None] by simp
  from formattedPercentage_one_decimal [of normalizeRawUsage "constWindow 1000" exampleUsageLevel
      "[usageMsg (inputOnly 130)]" None "Some ''claude''"] h p t
  have f: "formattedPercentage ?r = ''13.0%''" by simp
  from formattedPercentage_one_decimal [of normalizeRawUsage "constWindow 1000" exampleUsageLevel
      "[plainMsg]" None "Some ''claude''"] nh
  have g: "formattedPercentage ?n = ''0%''" by simp
  from h p f nh g show ?thesis by (simp only: simp_thms)
qed



end
